theory Spec2Isabelle
  imports Complex_Main "HOL-Library.Log_Nat"
begin

section \<open>JavaScript numbers\<close>

text \<open>
  A JavaScript number is an IEEE 754 binary64 value: not-a-number, one of the two
  infinities, or a finite double. A finite double is represented by the real number it
  denotes. The two zeros are identified: the program never divides by a zero, and
  \<^verbatim>\<open>Math.max(0, -0)\<close> and \<^verbatim>\<open>-0 || 0\<close> are both \<^verbatim>\<open>+0\<close>, so the sign of a
  zero never reaches a result.
\<close>

datatype jsnum = NaN | NInf | Fin real | PInf

text \<open>
  \<open>floorlog2 x\<close> is the binary exponent of a positive real:
  \<open>2 powi floorlog2 x \<le> x < 2 powi (floorlog2 x + 1)\<close>.
\<close>

definition floorlog2 :: "real \<Rightarrow> int" where
  "floorlog2 x = (if 1 \<le> x then bitlen \<lfloor>x\<rfloor> - 1 else - bitlen (\<lceil>1 / x\<rceil> - 1))"

text \<open>Rounding to the nearest integer, a tie going to the even neighbour.\<close>

definition round_even :: "real \<Rightarrow> int" where
  "round_even y = (let f = \<lfloor>y\<rfloor>; d = y - of_int f in
     if d < 1 / 2 then f else if 1 / 2 < d then f + 1 else if even f then f else f + 1)"

text \<open>
  The spacing of the doubles around \<open>x\<close>: 52 fraction bits below the exponent of \<open>x\<close>,
  the exponent never below that of the subnormal range.
\<close>

definition ulp :: "real \<Rightarrow> real" where
  "ulp x = 2 powi (max (floorlog2 \<bar>x\<bar>) (- 1022) - 52)"

text \<open>
  Every arithmetic result and every decimal literal is rounded to the nearest double,
  ties to even, overflowing to an infinity (IEEE 754 round-to-nearest).
\<close>

definition rnd64 :: "real \<Rightarrow> jsnum" where
  "rnd64 x = (if x = 0 then Fin 0 else
     let r = of_int (round_even (x / ulp x)) * ulp x in
     if 2 ^ 1024 \<le> \<bar>r\<bar> then (if 0 < x then PInf else NInf) else Fin r)"

definition jsign :: "jsnum \<Rightarrow> int" where
  "jsign a = (case a of NaN \<Rightarrow> 0 | NInf \<Rightarrow> - 1 | PInf \<Rightarrow> 1
     | Fin x \<Rightarrow> if 0 < x then 1 else if x < 0 then - 1 else 0)"

text \<open>The operator \<^verbatim>\<open>*\<close> on numbers.\<close>

definition js_mul :: "jsnum \<Rightarrow> jsnum \<Rightarrow> jsnum" where
  "js_mul a b =
     (case (a, b) of
        (Fin x, Fin y) \<Rightarrow> rnd64 (x * y)
      | _ \<Rightarrow> if a = NaN \<or> b = NaN \<or> jsign a * jsign b = 0 then NaN
             else if 0 < jsign a * jsign b then PInf else NInf)"

text \<open>
  The operator \<^verbatim>\<open>/\<close> on numbers. A zero divisor is \<^verbatim>\<open>+0\<close> here (the only divisor
  in the program is the literal 100).
\<close>

definition js_div :: "jsnum \<Rightarrow> jsnum \<Rightarrow> jsnum" where
  "js_div a b =
     (case (a, b) of
        (Fin x, Fin y) \<Rightarrow>
          if y = 0 then (if x = 0 then NaN else if 0 < x then PInf else NInf)
          else rnd64 (x / y)
      | (Fin x, _) \<Rightarrow> if b = NaN then NaN else Fin 0
      | (_, Fin y) \<Rightarrow> if a = NaN then NaN
                      else if (a = PInf) = (0 \<le> y) then PInf else NInf
      | _ \<Rightarrow> NaN)"

text \<open>The comparison \<^verbatim>\<open><\<close>; every comparison with not-a-number is false.\<close>

fun js_lt :: "jsnum \<Rightarrow> jsnum \<Rightarrow> bool" where
  "js_lt NaN _ = False"
| "js_lt _ NaN = False"
| "js_lt _ NInf = False"
| "js_lt NInf _ = True"
| "js_lt PInf _ = False"
| "js_lt (Fin a) PInf = True"
| "js_lt (Fin a) (Fin b) = (a < b)"

definition js_gt :: "jsnum \<Rightarrow> jsnum \<Rightarrow> bool" where
  "js_gt a b = js_lt b a"

definition js_ge :: "jsnum \<Rightarrow> jsnum \<Rightarrow> bool" where
  "js_ge a b = (a \<noteq> NaN \<and> b \<noteq> NaN \<and> \<not> js_lt a b)"

definition isNaN :: "jsnum \<Rightarrow> bool" where
  "isNaN a = (a = NaN)"

definition Math_min :: "jsnum \<Rightarrow> jsnum \<Rightarrow> jsnum" where
  "Math_min a b = (if a = NaN \<or> b = NaN then NaN else if js_lt b a then b else a)"

definition Math_max :: "jsnum \<Rightarrow> jsnum \<Rightarrow> jsnum" where
  "Math_max a b = (if a = NaN \<or> b = NaN then NaN else if js_lt a b then b else a)"

text \<open>
  \<^verbatim>\<open>Math.round\<close>: the nearest integer, a tie going towards \<open>+\<infinity>\<close>. The integer
  nearest to a double is a double, so nothing is rounded a second time.
\<close>

definition Math_round :: "jsnum \<Rightarrow> jsnum" where
  "Math_round a = (case a of Fin x \<Rightarrow> Fin (of_int \<lfloor>x + 1 / 2\<rfloor>) | _ \<Rightarrow> a)"

section \<open>JavaScript values\<close>

text \<open>
  A string is the list of its UTF-16 code units, each a number below 65536. The strings
  that the program writes itself (its keys, its messages, the status) are ASCII
  literals; \<open>utf16\<close> gives the code units of such a literal.
\<close>

type_synonym jsstring = "nat list"

definition utf16 :: "string \<Rightarrow> jsstring" where
  "utf16 s = map of_char s"

text \<open>
  The values \<^verbatim>\<open>JSON.parse\<close> and the request body can hold, and \<^verbatim>\<open>undefined\<close>.
  An object is the list of its own keys, each once, with their values.
\<close>

datatype jsval =
    JUndefined
  | JNull
  | JBool bool
  | JNum jsnum
  | JStr jsstring
  | JArr "jsval list"
  | JObj "(jsstring \<times> jsval) list"

text \<open>
  What is thrown. Every thrown value of the program carries a message: a literal of the
  program or the engine, or the text of a collaborator.
\<close>

datatype error =
    TypeError string
  | RangeError string
  | Error string
  | AxiosError jsstring
  | PostgrestError jsstring

definition message :: "error \<Rightarrow> jsstring" where
  "message e = (case e of TypeError m \<Rightarrow> utf16 m | RangeError m \<Rightarrow> utf16 m
     | Error m \<Rightarrow> utf16 m | AxiosError m \<Rightarrow> m | PostgrestError m \<Rightarrow> m)"

text \<open>Truthiness, as \<^verbatim>\<open>!v\<close>, \<^verbatim>\<open>!!v\<close> and \<^verbatim>\<open>v || w\<close> test it.\<close>

definition num_truthy :: "jsnum \<Rightarrow> bool" where
  "num_truthy a = (a \<noteq> NaN \<and> a \<noteq> Fin 0)"

definition truthy :: "jsval \<Rightarrow> bool" where
  "truthy v = (case v of JUndefined \<Rightarrow> False | JNull \<Rightarrow> False | JBool b \<Rightarrow> b
     | JNum a \<Rightarrow> num_truthy a | JStr s \<Rightarrow> s \<noteq> [] | JArr _ \<Rightarrow> True | JObj _ \<Rightarrow> True)"

text \<open>\<^verbatim>\<open>typeof v === "string"\<close>.\<close>

definition is_string :: "jsval \<Rightarrow> bool" where
  "is_string v = (case v of JStr _ \<Rightarrow> True | _ \<Rightarrow> False)"

text \<open>
  Reading the property \<open>k\<close> of a value, for the keys the program reads (the flag types,
  \<^verbatim>\<open>choices\<close>, \<^verbatim>\<open>message\<close>, \<^verbatim>\<open>content\<close>, \<^verbatim>\<open>apikey\<close>): none of them is a property of
  a built-in prototype, so a missing own key reads as \<^verbatim>\<open>undefined\<close>. Reading a
  property of \<^verbatim>\<open>null\<close> or \<^verbatim>\<open>undefined\<close> throws.
\<close>

definition own_prop :: "(jsstring \<times> jsval) list \<Rightarrow> string \<Rightarrow> jsval" where
  "own_prop kvs k = (case map_of kvs (utf16 k) of None \<Rightarrow> JUndefined | Some v \<Rightarrow> v)"

definition get_prop :: "jsval \<Rightarrow> string \<Rightarrow> error + jsval" where
  "get_prop v k =
     (case v of
        JUndefined \<Rightarrow> Inl (TypeError ''Cannot read properties of undefined'')
      | JNull \<Rightarrow> Inl (TypeError ''Cannot read properties of null'')
      | JObj kvs \<Rightarrow> Inr (own_prop kvs k)
      | _ \<Rightarrow> Inr JUndefined)"

text \<open>Reading the element \<^verbatim>\<open>v[0]\<close>.\<close>

definition get_index0 :: "jsval \<Rightarrow> error + jsval" where
  "get_index0 v =
     (case v of
        JUndefined \<Rightarrow> Inl (TypeError ''Cannot read properties of undefined'')
      | JNull \<Rightarrow> Inl (TypeError ''Cannot read properties of null'')
      | JObj kvs \<Rightarrow> Inr (own_prop kvs ''0'')
      | JArr xs \<Rightarrow> Inr (case xs of [] \<Rightarrow> JUndefined | x # _ \<Rightarrow> x)
      | JStr s \<Rightarrow> Inr (case s of [] \<Rightarrow> JUndefined | c # _ \<Rightarrow> JStr [c])
      | _ \<Rightarrow> Inr JUndefined)"

section \<open>parseFloat\<close>

text \<open>
  \<^verbatim>\<open>parseFloat(v)\<close> first converts \<open>v\<close> to a string. For an object that is
  \<^verbatim>\<open>OrdinaryToPrimitive\<close>: an own key \<^verbatim>\<open>toString\<close> of a parsed object holds a JSON value,
  which is not callable, and \<^verbatim>\<open>valueOf\<close> (own and not callable, or inherited and
  returning the object itself) yields no primitive either, so the conversion throws a
  TypeError. Without that key the object converts to \<^verbatim>\<open>[object Object]\<close>. An array
  converts every element (\<^verbatim>\<open>null\<close> to the empty string) and joins them with commas,
  so it throws when one of its elements does.
\<close>

fun holds_toString :: "jsval \<Rightarrow> bool" where
  "holds_toString (JObj kvs) = (map_of kvs (utf16 ''toString'') \<noteq> None)"
| "holds_toString (JArr vs) = (\<exists>v\<in>set vs. holds_toString v)"
| "holds_toString _ = False"

text \<open>
  The conversion of an array calls itself for every nested array, and the engine gives
  up with a RangeError where its resources end: the call stack on an array nested too
  deep, the greatest length of a string on a result too long. Where that is depends on
  the engine, so it is a parameter: \<open>E a\<close> says that the engine gives up on converting
  the array \<open>a\<close>. Converting a number, a string, a boolean, \<^verbatim>\<open>null\<close>, \<^verbatim>\<open>undefined\<close>
  or an object takes a bounded amount of both.
\<close>

fun engine_gives_up :: "(jsval \<Rightarrow> bool) \<Rightarrow> jsval \<Rightarrow> bool" where
  "engine_gives_up E (JArr vs) = (E (JArr vs) \<or> (\<exists>v\<in>set vs. engine_gives_up E v))"
| "engine_gives_up E _ = False"

definition to_string_throws :: "(jsval \<Rightarrow> bool) \<Rightarrow> jsval \<Rightarrow> bool" where
  "to_string_throws E v = (engine_gives_up E v \<or> holds_toString v)"

text \<open>
  An engine whose only limit is the call stack: it converts arrays nested up to
  \<open>limit\<close> deep.
\<close>

fun array_depth :: "jsval \<Rightarrow> nat" where
  "array_depth (JArr vs) = Suc (fold max (map array_depth vs) 0)"
| "array_depth _ = 0"

definition nests_deeper :: "nat \<Rightarrow> jsval \<Rightarrow> bool" where
  "nests_deeper limit v = (limit < array_depth v)"

text \<open>
  White space and line terminators, which \<^verbatim>\<open>parseFloat\<close> skips: tab, line feed,
  vertical tab, form feed, carriage return, space, no-break space, the Unicode space
  separators, the line and paragraph separators and the byte order mark.
\<close>

definition is_ws :: "nat \<Rightarrow> bool" where
  "is_ws c = (c \<in> {9, 10, 11, 12, 13, 32, 160, 5760, 8232, 8233, 8239, 8287, 12288, 65279}
              \<or> (8192 \<le> c \<and> c \<le> 8202))"

definition is_digit :: "nat \<Rightarrow> bool" where
  "is_digit c = (48 \<le> c \<and> c \<le> 57)"

definition digits_val :: "jsstring \<Rightarrow> nat" where
  "digits_val ds = foldl (\<lambda>a c. 10 * a + (c - 48)) 0 ds"

text \<open>An optional sign: whether it is a minus, and the rest of the string.\<close>

definition take_sign :: "jsstring \<Rightarrow> bool \<times> jsstring" where
  "take_sign s = (case s of [] \<Rightarrow> (False, s)
     | c # r \<Rightarrow> if c = of_char CHR ''-'' then (True, r)
                else if c = of_char CHR ''+'' then (False, r)
                else (False, s))"

text \<open>
  The exponent part at the head of a string: \<^verbatim>\<open>e\<close> or \<^verbatim>\<open>E\<close>, an optional sign and
  at least one digit; anything else is no exponent part.
\<close>

definition exponent_part :: "jsstring \<Rightarrow> int" where
  "exponent_part s = (case s of [] \<Rightarrow> 0
     | c # r \<Rightarrow>
         if c = of_char CHR ''e'' \<or> c = of_char CHR ''E'' then
           (let (neg, d) = take_sign r; ds = takeWhile is_digit d in
            if ds = [] then 0
            else if neg then - int (digits_val ds) else int (digits_val ds))
         else 0)"

text \<open>
  \<^verbatim>\<open>parseFloat\<close> of a string: leading white space is skipped, then the longest
  prefix that is a \<^verbatim>\<open>StrDecimalLiteral\<close> is read (a sign, then \<^verbatim>\<open>Infinity\<close> or
  digits with an optional fraction and exponent part), and its value is rounded to a
  double; with no such prefix the result is not-a-number.
\<close>

definition parseFloat_string :: "jsstring \<Rightarrow> jsnum" where
  "parseFloat_string s =
     (let (neg, u) = take_sign (dropWhile is_ws s) in
      if take 8 u = utf16 ''Infinity'' then (if neg then NInf else PInf)
      else
        let ip = takeWhile is_digit u; r1 = dropWhile is_digit u;
            (fp, r2) = (case r1 of [] \<Rightarrow> ([], r1)
                        | c # r \<Rightarrow> if c = of_char CHR ''.''
                                   then (takeWhile is_digit r, dropWhile is_digit r)
                                   else ([], r1))
        in if ip = [] \<and> fp = [] then NaN
           else
             let mv = real (digits_val (ip @ fp))
                        * 10 powi (exponent_part r2 - int (length fp))
             in rnd64 (if neg then - mv else mv))"

text \<open>
  \<^verbatim>\<open>parseFloat\<close> of a value whose conversion to a string does not throw. A number
  prints as a literal that reads back as the same number. Of an array only the first
  element counts: the comma after it ends every literal.
\<close>

fun string_to_number :: "jsval \<Rightarrow> jsnum" where
  "string_to_number (JNum a) = a"
| "string_to_number (JStr s) = parseFloat_string s"
| "string_to_number (JArr (v # vs)) = string_to_number v"
| "string_to_number _ = NaN"

text \<open>
  When both an exhausted engine and a \<^verbatim>\<open>toString\<close> key stand in the way, which error
  is thrown depends on where the engine gives up; the program's \<^verbatim>\<open>catch\<close> replaces
  either.
\<close>

definition parseFloat :: "(jsval \<Rightarrow> bool) \<Rightarrow> jsval \<Rightarrow> error + jsnum" where
  "parseFloat E v =
     (if engine_gives_up E v then Inl (RangeError ''Maximum call stack size exceeded'')
      else if holds_toString v
      then Inl (TypeError ''Cannot convert object to primitive value'')
      else Inr (string_to_number v))"

section \<open>The program\<close>

definition FLAG_TYPES :: "string list" where
  "FLAG_TYPES =
     [''toxicity'', ''harassment'', ''hate-speech'', ''sexual'', ''violence'', ''spam'']"

text \<open>\<^verbatim>\<open>xs.forEach(f)\<close> where \<open>f\<close> updates a state and may throw.\<close>

fun forEach :: "('s \<Rightarrow> 'a \<Rightarrow> error + 's) \<Rightarrow> 'a list \<Rightarrow> 's \<Rightarrow> error + 's" where
  "forEach f [] s = Inr s"
| "forEach f (x # xs) s = (case f s x of Inl e \<Rightarrow> Inl e | Inr s' \<Rightarrow> forEach f xs s')"

subsection \<open>parseAndValidateScores\<close>

text \<open>The two assignments to \<^verbatim>\<open>validated[flag]\<close>: clamp, then round to two decimals.\<close>

definition clamp01 :: "jsnum \<Rightarrow> jsnum" where
  "clamp01 a = Math_max (Fin 0) (Math_min (Fin 1) a)"

definition round2 :: "jsnum \<Rightarrow> jsnum" where
  "round2 a = js_div (Math_round (js_mul a (Fin 100))) (Fin 100)"

text \<open>The body of the callback, for one flag.\<close>

definition validate_flag ::
  "(jsval \<Rightarrow> bool) \<Rightarrow> jsval \<Rightarrow> (string \<rightharpoonup> jsnum) \<Rightarrow> string
     \<Rightarrow> error + (string \<rightharpoonup> jsnum)" where
  "validate_flag E scores validated flag =
     (case get_prop scores flag of
        Inl e \<Rightarrow> Inl e
      | Inr raw \<Rightarrow>
          (case parseFloat E raw of
             Inl e \<Rightarrow> Inl e
           | Inr parsed \<Rightarrow>
               let v = (if isNaN parsed then Fin 0 else parsed);
                   validated1 = validated(flag \<mapsto> clamp01 v);
                   validated2 = (case validated1 flag of
                                   None \<Rightarrow> validated1
                                 | Some c \<Rightarrow> validated1(flag \<mapsto> round2 c))
               in Inr validated2))"

text \<open>
  \<^verbatim>\<open>JSON.parse\<close> is a parameter: \<open>None\<close> when it throws. So is the engine's limit
  \<open>E\<close> on converting arrays to strings. The \<^verbatim>\<open>catch\<close> turns whatever was thrown
  inside the \<^verbatim>\<open>try\<close> into one error.
\<close>

definition parseAndValidateScores ::
  "(jsval \<Rightarrow> bool) \<Rightarrow> (jsval \<Rightarrow> jsval option) \<Rightarrow> jsval
     \<Rightarrow> error + (string \<rightharpoonup> jsnum)" where
  "parseAndValidateScores E JSON_parse aiResponse =
     (case JSON_parse aiResponse of
        None \<Rightarrow> Inl (Error ''Invalid AI response format'')
      | Some scores \<Rightarrow>
          (case forEach (validate_flag E scores) FLAG_TYPES Map.empty of
             Inl e \<Rightarrow> Inl (Error ''Invalid AI response format'')
           | Inr validated \<Rightarrow> Inr validated))"

subsection \<open>generateRandomScores\<close>

text \<open>
  \<^verbatim>\<open>Math.random()\<close> reads the next value of a random source and advances it. The
  source is a sequence of doubles, each in \<open>[0, 1)\<close>.
\<close>

definition Math_random :: "(nat \<Rightarrow> real) \<Rightarrow> nat \<Rightarrow> jsnum \<times> nat" where
  "Math_random src n = (Fin (src n), Suc n)"

definition valid_source :: "(nat \<Rightarrow> real) \<Rightarrow> bool" where
  "valid_source src = (\<forall>i. 0 \<le> src i \<and> src i < 1)"

definition generateRandomScores ::
  "(nat \<Rightarrow> real) \<Rightarrow> nat \<Rightarrow> (string \<rightharpoonup> jsnum) \<times> nat" where
  "generateRandomScores src n =
     foldl (\<lambda>(scores, n) flag.
              let (r, n') = Math_random src n
              in (scores(flag \<mapsto> js_div (Math_round (js_mul r (Fin 100))) (Fin 100)), n'))
           (Map.empty, n) FLAG_TYPES"

subsection \<open>formatResponse\<close>

record flag_record =
  flag_type :: "string option"
  flag_value :: jsnum

text \<open>\<^verbatim>\<open>scores[flagType] || 0\<close>: a missing, zero or not-a-number entry gives 0.\<close>

definition or_zero :: "jsnum option \<Rightarrow> jsnum" where
  "or_zero e = (case e of None \<Rightarrow> Fin 0 | Some a \<Rightarrow> if num_truthy a then a else Fin 0)"

definition formatResponse :: "(string \<rightharpoonup> jsnum) \<Rightarrow> flag_record list" where
  "formatResponse scores =
     map (\<lambda>flagType. \<lparr>flag_type = Some flagType, flag_value = or_zero (scores flagType)\<rparr>)
         FLAG_TYPES"

subsection \<open>The collaborators\<close>

text \<open>
  An answer of the Supabase client: the pair of \<^verbatim>\<open>data\<close> and \<^verbatim>\<open>error\<close> (an error
  is its message, \<open>None\<close> is \<^verbatim>\<open>null\<close>), or a rejected promise. An answer of axios: a
  response with its \<^verbatim>\<open>data\<close>, or a rejection (time-out, network error, status
  outside 2xx).
\<close>

datatype reply = Reply jsval "jsstring option" | Rejects jsstring

datatype http_outcome = HttpOk jsval | HttpFails jsstring

record formatted_flags =
  flags_type :: "string option"
  score :: jsnum
  flagged :: bool

record stored_result =
  api_key :: jsval
  content :: jsval
  content_type :: string
  flags :: formatted_flags
  user_id :: "jsval"
  status :: string

record world =
  api_key_single :: "jsval \<Rightarrow> reply"
  axios_post :: "jsval \<Rightarrow> http_outcome"
  JSON_parse :: "jsval \<Rightarrow> jsval option"
  gives_up :: "jsval \<Rightarrow> bool"
  request_data_insert :: "stored_result \<Rightarrow> reply"
  random_source :: "nat \<Rightarrow> real"
  random_pos :: nat

text \<open>What a request does to the collaborators, in order.\<close>

datatype event =
    KeyLookup jsval
  | ClassifierCall jsval
  | InsertRow stored_result

subsection \<open>verifyApiKey\<close>

definition verifyApiKey :: "world \<Rightarrow> jsval \<Rightarrow> bool \<times> event list" where
  "verifyApiKey w apikey =
     (case api_key_single w apikey of
        Reply data err \<Rightarrow> (truthy data \<and> err = None, [KeyLookup apikey])
      | Rejects m \<Rightarrow> (False, [KeyLookup apikey]))"

subsection \<open>analyzeContentWithAI\<close>

text \<open>\<^verbatim>\<open>response.data.choices[0].message.content\<close>.\<close>

definition ai_content :: "jsval \<Rightarrow> error + jsval" where
  "ai_content data =
     (case get_prop data ''choices'' of Inl e \<Rightarrow> Inl e
      | Inr choices \<Rightarrow>
     (case get_index0 choices of Inl e \<Rightarrow> Inl e
      | Inr choice \<Rightarrow>
     (case get_prop choice ''message'' of Inl e \<Rightarrow> Inl e
      | Inr msg \<Rightarrow> get_prop msg ''content'')))"

definition analyzeContentWithAI ::
  "world \<Rightarrow> jsval \<Rightarrow> (error + (string \<rightharpoonup> jsnum)) \<times> event list" where
  "analyzeContentWithAI w content' =
     (case axios_post w content' of
        HttpFails m \<Rightarrow> (Inl (AxiosError m), [ClassifierCall content'])
      | HttpOk data \<Rightarrow>
          (case ai_content data of
             Inl e \<Rightarrow> (Inl e, [ClassifierCall content'])
           | Inr aiResponse \<Rightarrow>
               (parseAndValidateScores (gives_up w) (JSON_parse w) aiResponse,
                [ClassifierCall content'])))"

subsection \<open>storeResultsInSupabase\<close>

definition maxFlag :: "flag_record list \<Rightarrow> flag_record" where
  "maxFlag results =
     foldl (\<lambda>max' current. if js_gt (flag_value current) (flag_value max') then current
                            else max')
           \<lparr>flag_type = None, flag_value = Fin (- 1)\<rparr> results"

text \<open>The row handed to \<^verbatim>\<open>insert\<close>. The literals 0.7 and 0.3 are doubles.\<close>

definition stored_row :: "jsval \<Rightarrow> jsval \<Rightarrow> flag_record list \<Rightarrow> stored_result" where
  "stored_row apikey content' results =
     (let m = maxFlag results;
          formattedFlags = \<lparr>flags_type = flag_type m, score = flag_value m,
                            flagged = js_ge (flag_value m) (rnd64 (5 / 10))\<rparr>;
          status' = (if js_ge (flag_value m) (rnd64 (7 / 10)) then ''flagged''
                     else if js_lt (flag_value m) (rnd64 (3 / 10)) then ''clean''
                     else ''borderline'')
      in \<lparr>api_key = apikey, content = content', content_type = ''text'',
          flags = formattedFlags, user_id = JNull, status = status'\<rparr>)"

definition storeResultsInSupabase ::
  "world \<Rightarrow> jsval \<Rightarrow> jsval \<Rightarrow> flag_record list \<Rightarrow> (error + jsval) \<times> event list" where
  "storeResultsInSupabase w apikey content' results =
     (let row = stored_row apikey content' results in
      case request_data_insert w row of
        Reply data (Some m) \<Rightarrow> (Inl (PostgrestError m), [InsertRow row])
      | Reply data None \<Rightarrow> (Inr data, [InsertRow row])
      | Rejects m \<Rightarrow> (Inl (PostgrestError m), [InsertRow row]))"

subsection \<open>The request handlers\<close>

text \<open>
  A response is a status code and a JSON body: the error object (\<^verbatim>\<open>error\<close> and,
  on a 500, \<^verbatim>\<open>details\<close>) or the list of flag records. The request body is the object
  the JSON body parser leaves in \<^verbatim>\<open>req.body\<close>.
\<close>

datatype body = ErrorBody string "jsstring option" | FlagList "flag_record list"

type_synonym response = "nat \<times> body"

text \<open>
  The \<^verbatim>\<open>try\<close> around the classifier call, in both handlers: when the call throws,
  the fallback scores stand in. The handlers do nothing more with the random source.
\<close>

definition scores_or_fallback ::
  "world \<Rightarrow> jsval \<Rightarrow> (string \<rightharpoonup> jsnum) \<times> event list" where
  "scores_or_fallback w content' =
     (case analyzeContentWithAI w content' of
        (Inr scores, evs) \<Rightarrow> (scores, evs)
      | (Inl e, evs) \<Rightarrow> (fst (generateRandomScores (random_source w) (random_pos w)), evs))"

definition moderate ::
  "world \<Rightarrow> (jsstring \<times> jsval) list \<Rightarrow> response \<times> event list" where
  "moderate w req_body =
     (let content' = own_prop req_body ''content''; apikey = own_prop req_body ''apikey'' in
      if \<not> truthy content' \<or> \<not> is_string content'
      then ((400, ErrorBody ''Valid content string is required'' None), [])
      else if \<not> truthy apikey
      then ((401, ErrorBody ''API key is required'' None), [])
      else if \<not> truthy content' \<or> \<not> is_string content'
      then ((400, ErrorBody ''Valid content string is required'' None), [])
      else
        let (isValidKey, evs1) = verifyApiKey w apikey in
        if \<not> isValidKey then ((403, ErrorBody ''Invalid API key'' None), evs1)
        else
          let (scores, evs2) = scores_or_fallback w content';
              response = formatResponse scores;
              (stored, evs3) = storeResultsInSupabase w apikey content' response
          in case stored of
               Inl e \<Rightarrow> ((500, ErrorBody ''Internal server error'' (Some (message e))),
                          evs1 @ evs2 @ evs3)
             | Inr _ \<Rightarrow> ((200, FlagList response), evs1 @ evs2 @ evs3))"

definition test_moderate ::
  "world \<Rightarrow> (jsstring \<times> jsval) list \<Rightarrow> response \<times> event list" where
  "test_moderate w req_body =
     (let content' = own_prop req_body ''content'' in
      if \<not> truthy content' \<or> \<not> is_string content'
      then ((400, ErrorBody ''Valid content string is required'' None), [])
      else if \<not> truthy content' \<or> \<not> is_string content'
      then ((400, ErrorBody ''Valid content string is required'' None), [])
      else
        let (scores, evs) = scores_or_fallback w content';
            response = formatResponse scores
        in ((200, FlagList response), evs))"

section \<open>Properties of scores and traces\<close>

text \<open>A number in the closed interval from 0 to 1.\<close>

definition unit_interval :: "jsnum \<Rightarrow> bool" where
  "unit_interval a = (case a of Fin x \<Rightarrow> 0 \<le> x \<and> x \<le> 1 | _ \<Rightarrow> False)"

text \<open>A number with two decimals: the double \<^verbatim>\<open>k / 100\<close> for an integer \<open>k\<close> from 0 to 100.\<close>

definition two_decimals :: "jsnum \<Rightarrow> bool" where
  "two_decimals a = (\<exists>k\<in>{0..100::int}. a = js_div (Fin (of_int k)) (Fin 100))"

text \<open>A score mapping: exactly the flag types as keys, every value a score.\<close>

definition score_mapping :: "(string \<rightharpoonup> jsnum) \<Rightarrow> bool" where
  "score_mapping scores =
     (dom scores = set FLAG_TYPES \<and>
      (\<forall>f\<in>set FLAG_TYPES. case scores f of None \<Rightarrow> False
                           | Some a \<Rightarrow> unit_interval a \<and> two_decimals a))"

text \<open>
  What the normalizer makes of one coerced value, in the words of its contract: zero
  for not-a-number, then clamped, then rounded.
\<close>

definition normalized :: "jsnum \<Rightarrow> jsnum" where
  "normalized parsed = round2 (clamp01 (if isNaN parsed then Fin 0 else parsed))"

text \<open>
  Reading and coercing the raw value of a flag throws: the parsed payload is \<^verbatim>\<open>null\<close>,
  or the raw value does not convert to a string.
\<close>

definition flag_conversion_throws :: "(jsval \<Rightarrow> bool) \<Rightarrow> jsval \<Rightarrow> string \<Rightarrow> bool" where
  "flag_conversion_throws E scores flag =
     (case get_prop scores flag of Inl _ \<Rightarrow> True | Inr raw \<Rightarrow> to_string_throws E raw)"

definition raw_flag :: "jsval \<Rightarrow> string \<Rightarrow> jsval" where
  "raw_flag scores flag = (case get_prop scores flag of Inl _ \<Rightarrow> JUndefined | Inr raw \<Rightarrow> raw)"

text \<open>
  A parsed payload that holds no score: the read \<^verbatim>\<open>scores[flag]\<close> gives
  \<^verbatim>\<open>undefined\<close> for every recognized flag type, as on a number, a string, a boolean,
  an array or an object with none of the six keys.
\<close>

definition holds_no_score :: "jsval \<Rightarrow> bool" where
  "holds_no_score v = list_all (\<lambda>f. get_prop v f = Inr JUndefined) FLAG_TYPES"

definition zero_scores :: "string \<rightharpoonup> jsnum" where
  "zero_scores = (\<lambda>f. if f \<in> set FLAG_TYPES then Some (Fin 0) else None)"

text \<open>A \<^verbatim>\<open>JSON.parse\<close> that answers \<open>v\<close>, and the score a result holds for a flag.\<close>

definition parses_to :: "jsval \<Rightarrow> jsval \<Rightarrow> jsval option" where
  "parses_to v raw = Some v"

definition score_of :: "error + (string \<rightharpoonup> jsnum) \<Rightarrow> string \<Rightarrow> jsnum option" where
  "score_of r flag = (case r of Inl _ \<Rightarrow> None | Inr validated \<Rightarrow> validated flag)"

text \<open>
  The record at index \<open>i\<close> is the first one of the greatest value: its value is above
  the sentinel, no earlier record reaches it and no record exceeds it.
\<close>

definition is_first_max :: "flag_record list \<Rightarrow> nat \<Rightarrow> bool" where
  "is_first_max xs i =
     (i < length xs \<and> js_gt (flag_value (xs ! i)) (Fin (- 1))
      \<and> (\<forall>j<i. \<not> js_ge (flag_value (xs ! j)) (flag_value (xs ! i)))
      \<and> (\<forall>j<length xs. \<not> js_gt (flag_value (xs ! j)) (flag_value (xs ! i))))"

text \<open>
  A valid list of flag records: one record for each flag type, in the declared order,
  every value a score.
\<close>

definition valid_flag_list :: "flag_record list \<Rightarrow> bool" where
  "valid_flag_list xs =
     (map flag_type xs = map Some FLAG_TYPES
      \<and> list_all (\<lambda>r. unit_interval (flag_value r) \<and> two_decimals (flag_value r)) xs)"

text \<open>The classifier call fails: \<^verbatim>\<open>analyzeContentWithAI\<close> throws.\<close>

definition classifier_fails :: "world \<Rightarrow> jsval \<Rightarrow> bool" where
  "classifier_fails w content' = isl (fst (analyzeContentWithAI w content'))"

text \<open>
  A world to run requests in: the key store holds the one key \<^verbatim>\<open>secret\<close>, the
  classifier is unreachable, every insert succeeds, the engine converts arrays nested
  up to 1000 deep, and the random source alternates between 0.25 and 0.75.
\<close>

definition offline_world :: world where
  "offline_world =
     \<lparr>api_key_single = (\<lambda>k. if k = JStr (utf16 ''secret'')
                              then Reply (JObj [(utf16 ''key'', JStr (utf16 ''secret''))]) None
                              else Reply JNull (Some (utf16 ''no rows returned''))),
      axios_post = (\<lambda>c. HttpFails (utf16 ''timeout of 5000ms exceeded'')),
      JSON_parse = (\<lambda>raw. None),
      gives_up = nests_deeper 1000,
      request_data_insert = (\<lambda>row. Reply JNull None),
      random_source = (\<lambda>i. if even i then 1 / 4 else 3 / 4),
      random_pos = 0\<rparr>"

text \<open>
  The same world with a classifier that answers, whatever the content, with the payload
  \<^verbatim>\<open>5\<close>, which \<^verbatim>\<open>JSON.parse\<close> reads as the number 5.
\<close>

definition junk_world :: world where
  "junk_world =
     offline_world
       \<lparr>axios_post := (\<lambda>c. HttpOk (JObj [(utf16 ''choices'',
                          JArr [JObj [(utf16 ''message'',
                            JObj [(utf16 ''content'', JStr (utf16 ''5''))])]])])),
        JSON_parse := (\<lambda>raw. if raw = JStr (utf16 ''5'') then Some (JNum (Fin 5)) else None)\<rparr>"

definition is_classifier_call :: "event \<Rightarrow> bool" where
  "is_classifier_call e = (case e of ClassifierCall _ \<Rightarrow> True | _ \<Rightarrow> False)"

definition is_insert :: "event \<Rightarrow> bool" where
  "is_insert e = (case e of InsertRow _ \<Rightarrow> True | _ \<Rightarrow> False)"

section \<open>Rounding to a double\<close>

lemmas rnd_eval = rnd64_def ulp_def floorlog2_def round_even_def bitlen_def
  compute_floorlog Let_def

lemma floorlog2_lower:
  assumes "0 < x"
  shows "2 powi (floorlog2 x) \<le> x"
proof (cases "1 \<le> x")
  case True
  define n where "n = \<lfloor>x\<rfloor>"
  have n1: "1 \<le> n" using True by (simp add: n_def le_floor_iff)
  have b1: "1 \<le> bitlen n" using n1 by (simp add: bitlen_alt_def)
  have "(2::int) ^ nat (bitlen n - 1) \<le> n" using bitlen_bounds[of n] n1 by simp
  then have "of_int ((2::int) ^ nat (bitlen n - 1)) \<le> (of_int n :: real)"
    by (simp only: of_int_le_iff)
  then have "(2::real) ^ nat (bitlen n - 1) \<le> of_int n" by simp
  moreover have "of_int n \<le> x" by (simp add: n_def)
  moreover have "(2::real) powi (bitlen n - 1) = 2 ^ nat (bitlen n - 1)"
    using b1 by (simp add: power_int_def)
  ultimately have A: "(2::real) powi (bitlen n - 1) \<le> x" by linarith
  have fl: "floorlog2 x = bitlen n - 1" using True by (simp add: floorlog2_def n_def)
  show ?thesis unfolding fl using A .
next
  case False
  define c where "c = \<lceil>1 / x\<rceil>"
  define b where "b = bitlen (c - 1)"
  have "1 < 1 / x" using assms False by simp
  then have c2: "2 \<le> c" unfolding c_def by (simp add: le_ceiling_iff)
  have "c - 1 < 2 ^ nat b" using bitlen_bounds[of "c - 1"] c2 by (simp add: b_def)
  then have "c \<le> 2 ^ nat b" by simp
  then have "(of_int c :: real) \<le> of_int (2 ^ nat b)" by (simp only: of_int_le_iff)
  then have cb: "(of_int c :: real) \<le> 2 ^ nat b" by simp
  have "1 / x \<le> of_int c" by (simp add: c_def)
  with cb have "1 / x \<le> 2 ^ nat b" by linarith
  then have "1 \<le> 2 ^ nat b * x" using assms by (simp add: field_simps)
  then have "1 / 2 ^ nat b \<le> x" by (simp add: field_simps)
  moreover have "0 \<le> b" by (simp add: b_def bitlen_nonneg)
  then have "(2::real) powi (- b) = 1 / 2 ^ nat b"
    by (simp add: power_int_def field_simps)
  ultimately have A: "(2::real) powi (- b) \<le> x" by linarith
  have fl: "floorlog2 x = - b" using False by (simp add: floorlog2_def c_def b_def)
  show ?thesis unfolding fl using A .
qed

lemma floorlog2_less:
  assumes "0 < x" and "x < 2 powi k"
  shows "floorlog2 x < k"
proof (rule ccontr)
  assume "\<not> floorlog2 x < k"
  then have "k \<le> floorlog2 x" by simp
  then have "(2::real) powi k \<le> 2 powi floorlog2 x"
    by (intro power_int_increasing) simp_all
  with floorlog2_lower[OF assms(1)] assms(2) show False by linarith
qed

lemma ulp_pos: "0 < ulp x"
  by (simp add: ulp_def)

lemma round_even_le:
  assumes "y \<le> of_int n"
  shows "round_even y \<le> n"
proof -
  have "\<lfloor>y\<rfloor> \<le> n" using assms by (simp add: floor_le_iff)
  moreover have "\<lfloor>y\<rfloor> = n \<Longrightarrow> y - of_int \<lfloor>y\<rfloor> \<le> 0" using assms by simp
  ultimately show ?thesis
    by (cases "\<lfloor>y\<rfloor> = n") (auto simp: round_even_def Let_def)
qed

lemma round_even_nonneg:
  assumes "0 \<le> y"
  shows "0 \<le> round_even y"
proof -
  have "0 \<le> \<lfloor>y\<rfloor>" using assms by simp
  then show ?thesis by (auto simp: round_even_def Let_def)
qed

lemma rnd64_bounded:
  assumes "0 \<le> x" and "x \<le> of_int N" and "N < 2 ^ 53"
  shows "\<exists>y. rnd64 x = Fin y \<and> 0 \<le> y \<and> y \<le> of_int N"
proof (cases "x = 0")
  case True
  then show ?thesis using assms by (simp add: rnd64_def)
next
  case False
  then have xpos: "0 < x" using assms by simp
  define j where "j = max (floorlog2 \<bar>x\<bar>) (- 1022) - 52"
  have q: "ulp x = 2 powi j" by (simp add: ulp_def j_def)
  have "x < 2 powi 53"
  proof -
    have "(of_int N :: real) < of_int (2 ^ 53)" using assms(3) by (simp only: of_int_less_iff)
    then show ?thesis using assms(2) by simp
  qed
  then have "floorlog2 x < 53" using floorlog2_less[OF xpos] by blast
  then have j0: "j \<le> 0" using xpos by (simp add: j_def)
  define M where "M = N * 2 ^ nat (- j)"
  have inv: "(2::real) powi j = 1 / 2 ^ nat (- j)"
    using j0 by (cases "j = 0") (simp_all add: power_int_def field_simps)
  have NM: "of_int N = of_int M * ulp x"
    by (simp add: M_def q inv)
  have "x / ulp x \<le> of_int M"
    using assms(2) ulp_pos[of x] by (simp add: NM field_simps)
  then have up: "round_even (x / ulp x) \<le> M" by (rule round_even_le)
  have lo: "0 \<le> round_even (x / ulp x)"
    using xpos ulp_pos[of x] by (intro round_even_nonneg) simp
  define r where "r = of_int (round_even (x / ulp x)) * ulp x"
  have r0: "0 \<le> r" using lo ulp_pos[of x] by (simp add: r_def)
  have "of_int (round_even (x / ulp x)) \<le> (of_int M :: real)" using up by simp
  then have rN: "r \<le> of_int N"
    using ulp_pos[of x] by (simp add: r_def NM)
  have "(of_int N :: real) < of_int (2 ^ 53)" using assms(3) by (simp only: of_int_less_iff)
  then have "(of_int N :: real) < 2 ^ 53" by simp
  moreover have "(2::real) ^ 53 \<le> 2 ^ 1024" by (rule power_increasing) simp_all
  ultimately have "\<bar>r\<bar> < 2 ^ 1024" using r0 rN by linarith
  then have "rnd64 x = Fin r" using False by (simp add: rnd64_def Let_def r_def)
  then show ?thesis using r0 rN by blast
qed

text \<open>
  The model is the rounding of IEEE 754: the exponent brackets the argument, and a
  finite result is within half a spacing of it.
\<close>

lemma floorlog2_upper:
  assumes "0 < x"
  shows "x < 2 powi (floorlog2 x + 1)"
proof (cases "1 \<le> x")
  case True
  define n where "n = \<lfloor>x\<rfloor>"
  have n1: "1 \<le> n" using True by (simp add: n_def le_floor_iff)
  have b0: "0 \<le> bitlen n" by (rule bitlen_nonneg)
  have "n < 2 ^ nat (bitlen n)" using bitlen_bounds[of n] n1 by simp
  then have "n + 1 \<le> 2 ^ nat (bitlen n)" by simp
  then have "(of_int (n + 1) :: real) \<le> of_int (2 ^ nat (bitlen n))"
    by (simp only: of_int_le_iff)
  then have "(of_int n :: real) + 1 \<le> 2 ^ nat (bitlen n)" by simp
  moreover have "x < of_int n + 1" by (simp add: n_def)
  moreover have "(2::real) powi (bitlen n) = 2 ^ nat (bitlen n)"
    using b0 by (simp add: power_int_def)
  ultimately have A: "x < 2 powi (bitlen n)" by linarith
  have fl: "floorlog2 x + 1 = bitlen n" using True by (simp add: floorlog2_def n_def)
  show ?thesis unfolding fl using A .
next
  case False
  define c where "c = \<lceil>1 / x\<rceil>"
  define b where "b = bitlen (c - 1)"
  have "1 < 1 / x" using assms False by simp
  then have c2: "2 \<le> c" unfolding c_def by (simp add: le_ceiling_iff)
  have b1: "1 \<le> b" using c2 by (simp add: b_def bitlen_alt_def)
  have "2 ^ nat (b - 1) \<le> c - 1" using bitlen_bounds[of "c - 1"] c2 by (simp add: b_def)
  then have "(of_int (2 ^ nat (b - 1)) :: real) \<le> of_int (c - 1)"
    by (simp only: of_int_le_iff)
  then have cb: "(2::real) ^ nat (b - 1) \<le> of_int c - 1" by simp
  have "of_int c - 1 < 1 / x" unfolding c_def by linarith
  with cb have "2 ^ nat (b - 1) < 1 / x" by linarith
  then have "2 ^ nat (b - 1) * x < 1" using assms by (simp add: field_simps)
  then have "x < 1 / 2 ^ nat (b - 1)" by (simp add: field_simps)
  moreover have "(2::real) powi (- b + 1) = 1 / 2 ^ nat (b - 1)"
  proof -
    have e: "- b + 1 = - int (nat (b - 1))" using b1 by simp
    have "(2::real) powi (- int (nat (b - 1))) = inverse (2 powi int (nat (b - 1)))"
      by (rule power_int_minus)
    also have "\<dots> = 1 / 2 ^ nat (b - 1)"
      by (simp only: power_int_of_nat inverse_eq_divide)
    finally show ?thesis unfolding e .
  qed
  ultimately have A: "x < 2 powi (- b + 1)" by linarith
  have fl: "floorlog2 x + 1 = - b + 1" using False by (simp add: floorlog2_def c_def b_def)
  show ?thesis unfolding fl using A .
qed

lemma round_even_nearest: "\<bar>of_int (round_even y) - y\<bar> \<le> 1 / 2"
proof -
  have "of_int \<lfloor>y\<rfloor> \<le> y" "y < of_int \<lfloor>y\<rfloor> + 1" by linarith+
  then show ?thesis by (auto simp: round_even_def Let_def)
qed

lemma rnd64_nearest:
  assumes "rnd64 x = Fin r"
  shows "\<bar>r - x\<bar> \<le> ulp x / 2"
proof (cases "x = 0")
  case True
  then show ?thesis using assms ulp_pos[of x] by (simp add: rnd64_def)
next
  case False
  then have r: "r = of_int (round_even (x / ulp x)) * ulp x"
    using assms by (simp add: rnd64_def Let_def split: if_splits)
  have "\<bar>of_int (round_even (x / ulp x)) - x / ulp x\<bar> \<le> 1 / 2"
    by (rule round_even_nearest)
  then have "\<bar>of_int (round_even (x / ulp x)) - x / ulp x\<bar> * ulp x \<le> 1 / 2 * ulp x"
    using ulp_pos[of x] by (intro mult_right_mono) simp_all
  moreover have "\<bar>of_int (round_even (x / ulp x)) - x / ulp x\<bar> * ulp x = \<bar>r - x\<bar>"
  proof -
    have "\<bar>of_int (round_even (x / ulp x)) - x / ulp x\<bar> * ulp x
            = \<bar>(of_int (round_even (x / ulp x)) - x / ulp x) * ulp x\<bar>"
      using ulp_pos[of x] by (simp add: abs_mult)
    also have "(of_int (round_even (x / ulp x)) - x / ulp x) * ulp x = r - x"
      using ulp_pos[of x] by (simp add: r field_simps)
    finally show ?thesis .
  qed
  ultimately show ?thesis by simp
qed

lemma rnd64_0: "rnd64 0 = Fin 0"
  by (simp add: rnd64_def)

lemma rnd64_1: "rnd64 1 = Fin 1"
  by (simp add: rnd_eval)

lemma rnd64_100: "rnd64 100 = Fin 100"
  by (simp add: rnd_eval)

text \<open>The doubles of the decimals that the program and its examples use.\<close>

lemma rnd64_1499: "rnd64 (1499 / 1000) = Fin (3375447920714187 / 2251799813685248)"
  by (simp add: rnd_eval)

lemma rnd64_half: "rnd64 (1 / 2) = Fin (1 / 2)"
  by (simp add: rnd_eval)

lemma rnd64_07: "rnd64 (7 / 10) = Fin (3152519739159347 / 4503599627370496)"
  by (simp add: rnd_eval)




lemma rnd64_08: "rnd64 (4 / 5) = Fin (3602879701896397 / 4503599627370496)"
  by (simp add: rnd_eval)

lemma rnd64_quarter: "rnd64 (1 / 4) = Fin (1 / 4)"
  by (simp add: rnd_eval)

lemma rnd64_three_quarters: "rnd64 (3 / 4) = Fin (3 / 4)"
  by (simp add: rnd_eval)

lemma rnd64_50: "rnd64 50 = Fin 50"
  by (simp add: rnd_eval)

lemma rnd64_25: "rnd64 25 = Fin 25"
  by (simp add: rnd_eval)

lemma rnd64_75: "rnd64 75 = Fin 75"
  by (simp add: rnd_eval)

lemma clamp01_range: "a \<noteq> NaN \<Longrightarrow> unit_interval (clamp01 a)"
  by (cases a) (auto simp: clamp01_def Math_max_def Math_min_def unit_interval_def)

lemma round2_range:
  assumes "unit_interval a"
  shows "unit_interval (round2 a) \<and> two_decimals (round2 a)"
proof -
  from assms obtain x where a: "a = Fin x" and x: "0 \<le> x" "x \<le> 1"
    by (cases a) (auto simp: unit_interval_def)
  have "0 \<le> x * 100" "x * 100 \<le> of_int 100" using x by simp_all
  from rnd64_bounded[OF this] obtain y where
    y: "rnd64 (x * 100) = Fin y" "0 \<le> y" "y \<le> 100" by auto
  define k where "k = \<lfloor>y + 1 / 2\<rfloor>"
  have k: "0 \<le> k" "k \<le> 100" using y by (simp_all add: k_def le_floor_iff floor_le_iff)
  have r: "round2 a = js_div (Fin (of_int k)) (Fin 100)"
    by (simp add: round2_def a js_mul_def y Math_round_def k_def)
  have "0 \<le> (of_int k :: real) / 100" "(of_int k :: real) / 100 \<le> of_int 1"
    using k by simp_all
  from rnd64_bounded[OF this] obtain z where
    z: "rnd64 (of_int k / 100) = Fin z" "0 \<le> z" "z \<le> 1" by auto
  have "round2 a = Fin z" by (simp add: r js_div_def z)
  then have "unit_interval (round2 a)" using z by (simp add: unit_interval_def)
  moreover have "two_decimals (round2 a)"
    unfolding two_decimals_def using k r by auto
  ultimately show ?thesis by simp
qed

section \<open>Strings and conversions\<close>

lemma utf16_eq_iff [simp]: "utf16 a = utf16 b \<longleftrightarrow> a = b"
proof -
  have "inj (of_char :: char \<Rightarrow> nat)" by (rule injI) simp
  then show ?thesis by (simp add: utf16_def inj_map_eq_map)
qed

lemma utf16_eq_Nil [simp]: "utf16 s = [] \<longleftrightarrow> s = []" "[] = utf16 s \<longleftrightarrow> s = []"
  by (auto simp: utf16_def)

lemma to_string_throws_simps [simp]:
  "to_string_throws E (JObj kvs) = (map_of kvs (utf16 ''toString'') \<noteq> None)"
  "to_string_throws E (JArr vs) = (E (JArr vs) \<or> (\<exists>v\<in>set vs. to_string_throws E v))"
  "to_string_throws E JUndefined = False"
  "to_string_throws E JNull = False"
  "to_string_throws E (JBool b) = False"
  "to_string_throws E (JNum a) = False"
  "to_string_throws E (JStr s) = False"
  by (auto simp: to_string_throws_def)

lemma parseFloat_eq:
  "parseFloat E v = Inr a \<longleftrightarrow> \<not> to_string_throws E v \<and> a = string_to_number v"
  by (auto simp: parseFloat_def to_string_throws_def)

lemma parseFloat_throws: "to_string_throws E v \<Longrightarrow> \<exists>e. parseFloat E v = Inl e"
  by (auto simp: parseFloat_def to_string_throws_def)

lemma parseFloat_ok: "\<not> to_string_throws E v \<Longrightarrow> parseFloat E v = Inr (string_to_number v)"
  by (simp add: parseFloat_eq)

section \<open>The normalizer\<close>

lemma validate_flag_ok:
  assumes "\<not> flag_conversion_throws E scores flag"
  shows "validate_flag E scores validated flag =
           Inr (validated(flag \<mapsto> normalized (string_to_number (raw_flag scores flag))))"
  using assms
  by (auto simp: flag_conversion_throws_def validate_flag_def raw_flag_def parseFloat_ok
        normalized_def Let_def split: sum.splits)

lemma validate_flag_throws:
  assumes "flag_conversion_throws E scores flag"
  shows "\<exists>e. validate_flag E scores validated flag = Inl e"
  using assms
  by (auto simp: flag_conversion_throws_def validate_flag_def
        dest: parseFloat_throws split: sum.splits)

lemma forEach_validate_ok:
  assumes "\<forall>f\<in>set fs. \<not> flag_conversion_throws E scores f"
  shows "forEach (validate_flag E scores) fs m =
           Inr (\<lambda>f. if f \<in> set fs then Some (normalized (string_to_number (raw_flag scores f)))
                    else m f)"
  using assms
proof (induction fs arbitrary: m)
  case Nil
  then show ?case by simp
next
  case (Cons x xs)
  have "forEach (validate_flag E scores) (x # xs) m =
          forEach (validate_flag E scores) xs
            (m(x \<mapsto> normalized (string_to_number (raw_flag scores x))))"
    using Cons.prems by (simp add: validate_flag_ok)
  also have "\<dots> = Inr (\<lambda>f. if f \<in> set xs
                then Some (normalized (string_to_number (raw_flag scores f)))
                else (m(x \<mapsto> normalized (string_to_number (raw_flag scores x)))) f)"
    using Cons.prems by (intro Cons.IH) simp
  finally show ?case by (auto simp: fun_eq_iff)
qed

lemma forEach_validate_throws:
  assumes "\<exists>f\<in>set fs. flag_conversion_throws E scores f"
  shows "\<exists>e. forEach (validate_flag E scores) fs m = Inl e"
  using assms
proof (induction fs arbitrary: m)
  case Nil
  then show ?case by simp
next
  case (Cons x xs)
  show ?case
  proof (cases "flag_conversion_throws E scores x")
    case True
    then obtain e where "validate_flag E scores m x = Inl e"
      using validate_flag_throws by blast
    then show ?thesis by simp
  next
    case False
    then have "\<exists>f\<in>set xs. flag_conversion_throws E scores f" using Cons.prems by auto
    then show ?thesis using False Cons.IH by (simp add: validate_flag_ok)
  qed
qed

lemma normalized_range: "unit_interval (normalized p) \<and> two_decimals (normalized p)"
  unfolding normalized_def
  by (intro round2_range clamp01_range) (simp add: isNaN_def)

lemma parse_ok:
  assumes "P raw = Some scores" and "\<forall>f\<in>set FLAG_TYPES. \<not> flag_conversion_throws E scores f"
  shows "parseAndValidateScores E P raw =
           Inr (\<lambda>f. if f \<in> set FLAG_TYPES
                    then Some (normalized (string_to_number (raw_flag scores f))) else None)"
  using assms by (simp add: parseAndValidateScores_def forEach_validate_ok)

lemma parse_throws:
  assumes "P raw = None \<or> (\<exists>scores. P raw = Some scores \<and> (\<exists>f\<in>set FLAG_TYPES. flag_conversion_throws E scores f))"
  shows "parseAndValidateScores E P raw = Inl (Error ''Invalid AI response format'')"
proof (cases "P raw")
  case None
  then show ?thesis by (simp add: parseAndValidateScores_def)
next
  case (Some scores)
  then have "\<exists>f\<in>set FLAG_TYPES. flag_conversion_throws E scores f" using assms by simp
  then obtain e where "forEach (validate_flag E scores) FLAG_TYPES Map.empty = Inl e"
    using forEach_validate_throws by blast
  then show ?thesis using Some by (simp add: parseAndValidateScores_def)
qed

lemma parse_score_mapping:
  assumes "parseAndValidateScores E P raw = Inr scores"
  shows "score_mapping scores"
proof -
  from assms obtain v where v: "P raw = Some v"
    by (auto simp: parseAndValidateScores_def split: option.splits)
  have nt: "\<forall>f\<in>set FLAG_TYPES. \<not> flag_conversion_throws E v f"
  proof (rule ccontr)
    assume "\<not> ?thesis"
    then have "parseAndValidateScores E P raw = Inl (Error ''Invalid AI response format'')"
      using v by (intro parse_throws) auto
    then show False using assms by simp
  qed
  have "scores = (\<lambda>f. if f \<in> set FLAG_TYPES
                    then Some (normalized (string_to_number (raw_flag v f))) else None)"
    using parse_ok[where E = E and P = P and raw = raw, OF v nt] assms by simp
  then show ?thesis
    by (auto simp: score_mapping_def normalized_range dom_def)
qed

lemma round2_0: "round2 (Fin 0) = Fin 0"
  by (simp add: round2_def js_mul_def js_div_def Math_round_def rnd64_0)

lemma round2_1: "round2 (Fin 1) = Fin 1"
  by (simp add: round2_def js_mul_def js_div_def Math_round_def rnd64_100 rnd64_1)

lemma normalized_NaN: "normalized NaN = Fin 0"
  by (simp add: normalized_def isNaN_def clamp01_def Math_max_def Math_min_def round2_0)

lemma normalized_low: "x \<le> 0 \<Longrightarrow> normalized (Fin x) = Fin 0"
  by (auto simp: normalized_def isNaN_def clamp01_def Math_max_def Math_min_def round2_0)

lemma normalized_high: "1 \<le> x \<Longrightarrow> normalized (Fin x) = Fin 1"
  by (auto simp: normalized_def isNaN_def clamp01_def Math_max_def Math_min_def round2_1)

lemma parseFloat_abc: "parseFloat_string (utf16 ''abc'') = NaN"
  by (simp add: parseFloat_string_def take_sign_def is_ws_def is_digit_def utf16_def)

lemma flag_types_set:
  "set FLAG_TYPES = {''toxicity'', ''harassment'', ''hate-speech'', ''sexual'', ''violence'', ''spam''}"
  by (simp add: FLAG_TYPES_def)

lemma obj_conversion [simp]:
  "flag_conversion_throws E (JObj kvs) f = to_string_throws E (own_prop kvs f)"
  "raw_flag (JObj kvs) f = own_prop kvs f"
  by (simp_all add: flag_conversion_throws_def raw_flag_def get_prop_def)

subsection \<open>C1: the contract of the normalizer\<close>

lemma parseFloat_unicode_space:
  "parseFloat_string (65279 # 8232 # 12288 # utf16 ''0.5abc'') = Fin (1 / 2)"
proof -
  have "parseFloat_string (65279 # 8232 # 12288 # utf16 ''0.5abc'') = rnd64 (1 / 2)"
    by (simp add: parseFloat_string_def take_sign_def is_ws_def is_digit_def
          exponent_part_def digits_val_def utf16_def)
  then show ?thesis by (simp add: rnd64_half)
qed

text \<open>
  C1 (as amended). For every raw classifier payload that parses to an object in which
  the raw value of every recognized flag converts to a string (it holds no object with
  a key \<^verbatim>\<open>toString\<close> of its own, and the engine does not give up on an array in it),
  the normalizer returns a mapping whose keys are exactly the six flag types; the value
  of each flag is the numeric coercion of its raw value, with 0 for not-a-number,
  clamped to the interval from 0 to 1 and rounded to two decimals, so it lies in that
  interval and is the double \<open>k / 100\<close> for an integer \<open>k\<close> from 0 to 100.
\<close>

theorem normalizer_contract:
  assumes "P raw = Some (JObj kvs)"
    and "\<forall>f\<in>set FLAG_TYPES. \<not> to_string_throws E (own_prop kvs f)"
  shows "\<exists>validated. parseAndValidateScores E P raw = Inr validated
           \<and> dom validated = set FLAG_TYPES
           \<and> (\<forall>f\<in>set FLAG_TYPES.
                 parseFloat E (own_prop kvs f) = Inr (string_to_number (own_prop kvs f))
               \<and> validated f = Some (normalized (string_to_number (own_prop kvs f)))
               \<and> unit_interval (normalized (string_to_number (own_prop kvs f)))
               \<and> two_decimals (normalized (string_to_number (own_prop kvs f))))"
proof -
  let ?v = "\<lambda>f. if f \<in> set FLAG_TYPES
                 then Some (normalized (string_to_number (raw_flag (JObj kvs) f))) else None"
  have nt: "\<forall>f\<in>set FLAG_TYPES. \<not> flag_conversion_throws E (JObj kvs) f"
    using assms(2) by simp
  have r: "parseAndValidateScores E P raw = Inr ?v"
    using parse_ok[where E = E and P = P and raw = raw, OF assms(1) nt] .
  have d: "dom ?v = set FLAG_TYPES" by (auto simp: dom_def)
  have "\<forall>f\<in>set FLAG_TYPES.
          parseFloat E (own_prop kvs f) = Inr (string_to_number (own_prop kvs f))
        \<and> ?v f = Some (normalized (string_to_number (own_prop kvs f)))
        \<and> unit_interval (normalized (string_to_number (own_prop kvs f)))
        \<and> two_decimals (normalized (string_to_number (own_prop kvs f)))"
    using assms(2) by (simp add: parseFloat_ok normalized_range)
  with r d show ?thesis by blast
qed

text \<open>
  The contract at the payload \<^verbatim>\<open>{"toxicity":"abc","spam":"<s>0.5abc"}\<close>, where
  \<^verbatim>\<open><s>\<close> stands for a byte order mark, a line separator and an ideographic space: the
  raw value of toxicity is not a number, so its score is 0; the white space before the
  raw value of spam is skipped, so its score is 0.5.
\<close>

theorem normalizer_contract_witness:
  \<open>score_of (parseAndValidateScores (nests_deeper 1000)
               (parses_to (JObj [(utf16 ''toxicity'', JStr (utf16 ''abc'')),
                                 (utf16 ''spam'',
                                  JStr (65279 # 8232 # 12288 # utf16 ''0.5abc''))]))
               (JStr (utf16 ''{"toxicity":"abc","spam":"'' @ [65279, 8232, 12288]
                       @ utf16 ''0.5abc"}''))) ''toxicity'' = Some (Fin 0)
   \<and> score_of (parseAndValidateScores (nests_deeper 1000)
               (parses_to (JObj [(utf16 ''toxicity'', JStr (utf16 ''abc'')),
                                 (utf16 ''spam'',
                                  JStr (65279 # 8232 # 12288 # utf16 ''0.5abc''))]))
               (JStr (utf16 ''{"toxicity":"abc","spam":"'' @ [65279, 8232, 12288]
                       @ utf16 ''0.5abc"}''))) ''spam'' = Some (Fin (1 / 2))\<close>
proof -
  let ?kvs = "[(utf16 ''toxicity'', JStr (utf16 ''abc'')),
               (utf16 ''spam'', JStr (65279 # 8232 # 12288 # utf16 ''0.5abc''))]"
  let ?raw = \<open>JStr (utf16 ''{"toxicity":"abc","spam":"'' @ [65279, 8232, 12288]
                       @ utf16 ''0.5abc"}'')\<close>
  have h1: "parses_to (JObj ?kvs) ?raw = Some (JObj ?kvs)"
    by (simp add: parses_to_def)
  have h2: "\<forall>f\<in>set FLAG_TYPES. \<not> to_string_throws (nests_deeper 1000) (own_prop ?kvs f)"
    by (simp add: flag_types_set own_prop_def)
  have v: "normalized (string_to_number (own_prop ?kvs ''toxicity'')) = Fin 0"
    by (simp add: own_prop_def parseFloat_abc normalized_NaN)
  have "normalized (Fin (1 / 2)) = Fin (1 / 2)"
    by (simp add: normalized_def isNaN_def clamp01_def Math_max_def Math_min_def
          round2_def js_mul_def js_div_def Math_round_def rnd64_50 rnd64_half)
  then have u: "normalized (string_to_number (own_prop ?kvs ''spam'')) = Fin (1 / 2)"
    by (simp add: own_prop_def parseFloat_unicode_space)
  have m: "''toxicity'' \<in> set FLAG_TYPES" "''spam'' \<in> set FLAG_TYPES"
    by (simp_all add: flag_types_set)
  from normalizer_contract[where E = "nests_deeper 1000" and P = "parses_to (JObj ?kvs)"
      and raw = ?raw, OF h1 h2]
  obtain validated where
    r: "parseAndValidateScores (nests_deeper 1000) (parses_to (JObj ?kvs)) ?raw = Inr validated"
    and a: "\<forall>f\<in>set FLAG_TYPES.
              validated f = Some (normalized (string_to_number (own_prop ?kvs f)))"
    by blast
  have "validated ''toxicity'' = Some (Fin 0)" using a m(1) v by simp
  moreover have "validated ''spam'' = Some (Fin (1 / 2))" using a m(2) u by simp
  ultimately show ?thesis unfolding r by (simp add: score_of_def)
qed

text \<open>
  The claim as first stated covers every payload that parses to an object. The payload
  \<^verbatim>\<open>{"toxicity":{"toString":0}}\<close> parses to one, and \<^verbatim>\<open>parseFloat\<close> of the raw value
  throws a TypeError, since the object's own \<^verbatim>\<open>toString\<close> is not callable; the
  \<^verbatim>\<open>catch\<close> turns it into the format error and no mapping is returned.
\<close>

theorem normalizer_contract_counterexample:
  \<open>parseAndValidateScores (nests_deeper 1000)
     (parses_to (JObj [(utf16 ''toxicity'', JObj [(utf16 ''toString'', JNum (Fin 0))])]))
     (JStr (utf16 ''{"toxicity":{"toString":0}}''))
   = Inl (Error ''Invalid AI response format'')\<close>
  by (rule parse_throws) (simp add: parses_to_def flag_types_set own_prop_def)

subsection \<open>C4: three payloads\<close>

lemma score_of_object:
  assumes "\<forall>f\<in>set FLAG_TYPES. \<not> to_string_throws E (own_prop kvs f)"
    and "f \<in> set FLAG_TYPES"
  shows "score_of (parseAndValidateScores E (parses_to (JObj kvs)) raw) f
           = Some (normalized (string_to_number (own_prop kvs f)))"
proof -
  have "parses_to (JObj kvs) raw = Some (JObj kvs)" by (simp add: parses_to_def)
  moreover have "\<forall>f\<in>set FLAG_TYPES. \<not> flag_conversion_throws E (JObj kvs) f"
    using assms(1) by simp
  ultimately have "parseAndValidateScores E (parses_to (JObj kvs)) raw =
      Inr (\<lambda>f. if f \<in> set FLAG_TYPES
               then Some (normalized (string_to_number (raw_flag (JObj kvs) f))) else None)"
    by (rule parse_ok)
  then show ?thesis using assms(2) by (simp add: score_of_def)
qed

lemma toxicity_only:
  "\<forall>f\<in>set FLAG_TYPES. \<not> to_string_throws E (own_prop [(utf16 ''toxicity'', JNum a)] f)"
  by (simp add: flag_types_set own_prop_def)

lemma toxicity_score:
  "score_of (parseAndValidateScores E (parses_to (JObj [(utf16 ''toxicity'', JNum a)])) raw) ''toxicity''
     = Some (normalized a)"
  using score_of_object[where kvs = "[(utf16 ''toxicity'', JNum a)]" and f = "''toxicity''"
      and E = E and raw = raw, OF toxicity_only]
  by (simp add: flag_types_set own_prop_def)

text \<open>
  C4 (as amended). Normalizing \<^verbatim>\<open>{"toxicity":1.499}\<close> yields 1 for toxicity: the
  clamp caps the value at 1 before it is rounded. Normalizing \<^verbatim>\<open>{"toxicity":-3}\<close>
  yields 0 and normalizing \<^verbatim>\<open>{"toxicity":3}\<close> yields 1. A number of a payload is
  the double nearest to its literal.
\<close>

theorem normalizer_examples:
  \<open>score_of (parseAndValidateScores E
               (parses_to (JObj [(utf16 ''toxicity'', JNum (rnd64 (1499 / 1000)))]))
               (JStr (utf16 ''{"toxicity":1.499}''))) ''toxicity'' = Some (Fin 1)
   \<and> score_of (parseAndValidateScores E
               (parses_to (JObj [(utf16 ''toxicity'', JNum (rnd64 (- 3)))]))
               (JStr (utf16 ''{"toxicity":-3}''))) ''toxicity'' = Some (Fin 0)
   \<and> score_of (parseAndValidateScores E
               (parses_to (JObj [(utf16 ''toxicity'', JNum (rnd64 3))]))
               (JStr (utf16 ''{"toxicity":3}''))) ''toxicity'' = Some (Fin 1)\<close>
proof -
  have a: "rnd64 (- 3) = Fin (- 3)" by (simp add: rnd_eval)
  have b: "rnd64 3 = Fin 3" by (simp add: rnd_eval)
  show ?thesis
    by (simp add: toxicity_score rnd64_1499 a b normalized_high normalized_low)
qed

text \<open>
  The claim as first stated gives 0.5 for the first payload; the program gives 1.
\<close>

theorem normalizer_examples_counterexample:
  \<open>score_of (parseAndValidateScores (nests_deeper 1000)
               (parses_to (JObj [(utf16 ''toxicity'', JNum (rnd64 (1499 / 1000)))]))
               (JStr (utf16 ''{"toxicity":1.499}''))) ''toxicity'' \<noteq> Some (rnd64 (5 / 10))\<close>
  by (simp add: toxicity_score rnd64_1499 rnd64_half normalized_high)

subsection \<open>C6: when the normalizer raises\<close>

lemma flag_conversion_throws_iff:
  "flag_conversion_throws E scores f \<longleftrightarrow>
     scores = JNull \<or> scores = JUndefined
     \<or> (\<exists>kvs. scores = JObj kvs \<and> to_string_throws E (own_prop kvs f))"
  by (cases scores) (simp_all add: flag_conversion_throws_def get_prop_def)

lemma array_depth_three: "array_depth (JArr [JArr [JArr [JNum a]]]) = 3"
  by simp

lemma zeros_of_non_object:
  assumes "P raw = Some v" and "v \<noteq> JNull" and "v \<noteq> JUndefined" and "\<forall>kvs. v \<noteq> JObj kvs"
  shows "parseAndValidateScores E P raw =
           Inr (\<lambda>f. if f \<in> set FLAG_TYPES then Some (Fin 0) else None)"
proof -
  have g: "\<And>f. get_prop v f = Inr JUndefined"
    using assms(2-4) by (cases v) (simp_all add: get_prop_def)
  then have "\<forall>f\<in>set FLAG_TYPES. \<not> flag_conversion_throws E v f"
    by (simp add: flag_conversion_throws_def)
  from parse_ok[where E = E and P = P and raw = raw, OF assms(1) this]
  show ?thesis by (simp add: raw_flag_def g normalized_NaN cong: if_cong)
qed

text \<open>
  C6 (as amended). The normalizer raises exactly when \<^verbatim>\<open>JSON.parse\<close> throws, or the
  payload parses to \<^verbatim>\<open>null\<close>, or it parses to an object in which the raw value of
  some recognized flag does not convert to a string: the raw value holds an object
  with a key \<^verbatim>\<open>toString\<close> of its own, or the engine gives up on an array in it. What
  it raises is always the error \<^verbatim>\<open>Invalid AI response format\<close>. On every other
  payload it succeeds; a payload that parses to a number, a string, a boolean or an
  array gets 0 for every flag type. A raw value does not convert to a string exactly
  when \<^verbatim>\<open>parseFloat\<close> throws on it.
\<close>

theorem normalizer_raises_iff:
  "(parseAndValidateScores E P raw = Inl e) =
     (e = Error ''Invalid AI response format''
      \<and> (P raw = None \<or> P raw = Some JNull \<or> P raw = Some JUndefined
         \<or> (\<exists>kvs. P raw = Some (JObj kvs)
                \<and> (\<exists>f\<in>set FLAG_TYPES. to_string_throws E (own_prop kvs f)))))
   \<and> to_string_throws E v = (engine_gives_up E v \<or> holds_toString v)
   \<and> ((\<exists>u. P raw = Some u \<and> u \<noteq> JNull \<and> u \<noteq> JUndefined \<and> (\<forall>kvs. u \<noteq> JObj kvs))
        \<longrightarrow> parseAndValidateScores E P raw =
              Inr (\<lambda>f. if f \<in> set FLAG_TYPES then Some (Fin 0) else None))
   \<and> isl (parseFloat E v) = to_string_throws E v"
proof -
  have iff: "(parseAndValidateScores E P raw = Inl e) =
     (e = Error ''Invalid AI response format''
      \<and> (P raw = None \<or> P raw = Some JNull \<or> P raw = Some JUndefined
         \<or> (\<exists>kvs. P raw = Some (JObj kvs)
                \<and> (\<exists>f\<in>set FLAG_TYPES. to_string_throws E (own_prop kvs f)))))"
  proof (cases "P raw = None \<or> (\<exists>scores. P raw = Some scores
                  \<and> (\<exists>f\<in>set FLAG_TYPES. flag_conversion_throws E scores f))")
    case True
    then have l: "parseAndValidateScores E P raw = Inl (Error ''Invalid AI response format'')"
      by (rule parse_throws)
    from True have "P raw = None \<or> P raw = Some JNull \<or> P raw = Some JUndefined
           \<or> (\<exists>kvs. P raw = Some (JObj kvs)
                  \<and> (\<exists>f\<in>set FLAG_TYPES. to_string_throws E (own_prop kvs f)))"
      by (auto simp: flag_conversion_throws_iff)
    with l show ?thesis by auto
  next
    case False
    then obtain scores where s: "P raw = Some scores"
      and nt: "\<forall>f\<in>set FLAG_TYPES. \<not> flag_conversion_throws E scores f" by auto
    have f0: "''toxicity'' \<in> set FLAG_TYPES" by (simp add: flag_types_set)
    have r: "\<exists>v. parseAndValidateScores E P raw = Inr v"
      using parse_ok[where E = E and P = P and raw = raw, OF s nt] by blast
    have "\<not> (P raw = None \<or> P raw = Some JNull \<or> P raw = Some JUndefined
           \<or> (\<exists>kvs. P raw = Some (JObj kvs)
                  \<and> (\<exists>f\<in>set FLAG_TYPES. to_string_throws E (own_prop kvs f))))"
      using s nt f0 by (auto simp: flag_conversion_throws_iff)
    with r show ?thesis by auto
  qed
  have z: "(\<exists>u. P raw = Some u \<and> u \<noteq> JNull \<and> u \<noteq> JUndefined \<and> (\<forall>kvs. u \<noteq> JObj kvs))
        \<longrightarrow> parseAndValidateScores E P raw =
              Inr (\<lambda>f. if f \<in> set FLAG_TYPES then Some (Fin 0) else None)"
    using zeros_of_non_object[of P raw _ E] by blast
  have ts: "to_string_throws E v = (engine_gives_up E v \<or> holds_toString v)"
    by (simp add: to_string_throws_def)
  have pf: "isl (parseFloat E v) = to_string_throws E v"
    by (simp add: parseFloat_def to_string_throws_def)
  from iff ts z pf show ?thesis by (intro conjI)
qed

text \<open>
  The payload \<^verbatim>\<open>true\<close> parses to a boolean and gets 0 for every flag type. The
  payload \<^verbatim>\<open>{"toxicity":[[[0.5]]]}\<close> makes an engine that converts arrays nested up to
  two deep give up, and the normalizer raises.
\<close>

theorem normalizer_raises_iff_witness:
  \<open>parseAndValidateScores (nests_deeper 1000) (parses_to (JBool True)) (JStr (utf16 ''true''))
     = Inr (\<lambda>f. if f \<in> set FLAG_TYPES then Some (Fin 0) else None)
   \<and> parseAndValidateScores (nests_deeper 2)
       (parses_to (JObj [(utf16 ''toxicity'', JArr [JArr [JArr [JNum (Fin (1 / 2))]]])]))
       (JStr (utf16 ''{"toxicity":[[[0.5]]]}''))
     = Inl (Error ''Invalid AI response format'')\<close>
proof -
  let ?deep = "JArr [JArr [JArr [JNum (Fin (1 / 2))]]]"
  let ?kvs = "[(utf16 ''toxicity'', ?deep)]"
  let ?raw = \<open>JStr (utf16 ''{"toxicity":[[[0.5]]]}'')\<close>
  have a: "\<exists>u. parses_to (JBool True) (JStr (utf16 ''true'')) = Some u \<and> u \<noteq> JNull
             \<and> u \<noteq> JUndefined \<and> (\<forall>kvs. u \<noteq> JObj kvs)"
    by (simp add: parses_to_def)
  have z: "parseAndValidateScores (nests_deeper 1000) (parses_to (JBool True))
             (JStr (utf16 ''true''))
           = Inr (\<lambda>f. if f \<in> set FLAG_TYPES then Some (Fin 0) else None)"
    using normalizer_raises_iff[where E = "nests_deeper 1000" and P = "parses_to (JBool True)"
        and raw = "JStr (utf16 ''true'')", THEN conjunct2, THEN conjunct2, THEN conjunct1] a
    by (rule mp)
  have g: "to_string_throws (nests_deeper 2) ?deep"
    by (simp add: nests_deeper_def)
  have "''toxicity'' \<in> set FLAG_TYPES" by (simp add: flag_types_set)
  moreover have "to_string_throws (nests_deeper 2) (own_prop ?kvs ''toxicity'')"
    using g by (simp add: own_prop_def)
  ultimately have t: "\<exists>f\<in>set FLAG_TYPES. to_string_throws (nests_deeper 2) (own_prop ?kvs f)"
    by blast
  have p: "parses_to (JObj ?kvs) ?raw = Some (JObj ?kvs)" by (simp add: parses_to_def)
  have "(parseAndValidateScores (nests_deeper 2) (parses_to (JObj ?kvs)) ?raw
           = Inl (Error ''Invalid AI response format'')) =
     (Error ''Invalid AI response format'' = Error ''Invalid AI response format''
      \<and> (parses_to (JObj ?kvs) ?raw = None \<or> parses_to (JObj ?kvs) ?raw = Some JNull
         \<or> parses_to (JObj ?kvs) ?raw = Some JUndefined
         \<or> (\<exists>kvs. parses_to (JObj ?kvs) ?raw = Some (JObj kvs)
                \<and> (\<exists>f\<in>set FLAG_TYPES. to_string_throws (nests_deeper 2) (own_prop kvs f)))))"
    using normalizer_raises_iff[where E = "nests_deeper 2" and P = "parses_to (JObj ?kvs)"
        and raw = ?raw and e = "Error ''Invalid AI response format''", THEN conjunct1] .
  then have r: "parseAndValidateScores (nests_deeper 2) (parses_to (JObj ?kvs)) ?raw
           = Inl (Error ''Invalid AI response format'')"
    using p t by blast
  from z r show ?thesis by (rule conjI)
qed

text \<open>
  The claim as first stated has the normalizer raise exactly on the payloads that do not
  parse to a structured object. The payload \<^verbatim>\<open>5\<close> parses to a number and is
  normalized without an error (every flag reads as \<^verbatim>\<open>undefined\<close>); the payload
  \<^verbatim>\<open>{"spam":[{"toString":1}]}\<close> parses to an object and the normalizer raises.
\<close>

theorem normalizer_raises_iff_counterexample:
  \<open>\<not> isl (parseAndValidateScores (nests_deeper 1000) (parses_to (JNum (Fin 5)))
            (JStr (utf16 ''5'')))
   \<and> isl (parseAndValidateScores (nests_deeper 1000)
            (parses_to (JObj [(utf16 ''spam'', JArr [JObj [(utf16 ''toString'', JNum (Fin 1))]])]))
            (JStr (utf16 ''{"spam":[{"toString":1}]}'')))\<close>
proof -
  have "parseAndValidateScores (nests_deeper 1000) (parses_to (JNum (Fin 5)))
          (JStr (utf16 ''5''))
        = Inr (\<lambda>f. if f \<in> set FLAG_TYPES then Some (Fin 0) else None)"
    by (rule zeros_of_non_object[where v = "JNum (Fin 5)"]) (simp_all add: parses_to_def)
  moreover have \<open>parseAndValidateScores (nests_deeper 1000)
            (parses_to (JObj [(utf16 ''spam'', JArr [JObj [(utf16 ''toString'', JNum (Fin 1))]])]))
            (JStr (utf16 ''{"spam":[{"toString":1}]}'')) = Inl (Error ''Invalid AI response format'')\<close>
    by (rule parse_throws) (simp add: parses_to_def flag_types_set own_prop_def)
  ultimately show ?thesis by simp
qed

section \<open>Status derivation\<close>

lemma maxFlag_Nil: "maxFlag [] = \<lparr>flag_type = None, flag_value = Fin (- 1)\<rparr>"
  by (simp add: maxFlag_def)

lemma maxFlag_snoc:
  "maxFlag (xs @ [x]) =
     (if js_gt (flag_value x) (flag_value (maxFlag xs)) then x else maxFlag xs)"
  by (simp add: maxFlag_def)

lemma js_gt_irrefl: "\<not> js_gt a a"
  by (cases a) (simp_all add: js_gt_def)

lemma js_gt_trans: "js_gt a b \<Longrightarrow> js_gt b c \<Longrightarrow> js_gt a c"
  by (cases a; cases b; cases c) (simp_all add: js_gt_def)

lemma not_gt_below: "js_gt x m \<Longrightarrow> \<not> js_gt v m \<Longrightarrow> \<not> js_gt v x"
  by (cases x; cases m; cases v) (simp_all add: js_gt_def)

lemma not_ge_below: "js_gt x m \<Longrightarrow> \<not> js_gt v m \<Longrightarrow> \<not> js_ge v x"
  by (cases x; cases m; cases v) (simp_all add: js_gt_def js_ge_def)

lemma maxFlag_scan:
  "(maxFlag xs = \<lparr>flag_type = None, flag_value = Fin (- 1)\<rparr>
      \<and> (\<forall>r\<in>set xs. \<not> js_gt (flag_value r) (Fin (- 1))))
   \<or> (\<exists>i. is_first_max xs i \<and> maxFlag xs = xs ! i)"
proof (induction xs rule: rev_induct)
  case Nil
  then show ?case by (simp add: maxFlag_Nil)
next
  case (snoc x xs)
  let ?m = "maxFlag xs"
  show ?case
  proof (cases "js_gt (flag_value x) (flag_value ?m)")
    case True
    have below: "\<forall>j<length xs. \<not> js_gt (flag_value (xs ! j)) (flag_value ?m)"
      using snoc.IH by (auto simp: is_first_max_def js_gt_irrefl)
    have above: "js_gt (flag_value x) (Fin (- 1))"
      using snoc.IH True by (auto simp: is_first_max_def intro: js_gt_trans)
    have "is_first_max (xs @ [x]) (length xs)"
      unfolding is_first_max_def
      using below above True
      by (auto simp: nth_append less_Suc_eq js_gt_irrefl
            dest: not_ge_below not_gt_below)
    moreover have "maxFlag (xs @ [x]) = (xs @ [x]) ! length xs"
      using True by (simp add: maxFlag_snoc)
    ultimately show ?thesis by blast
  next
    case False
    then have eq: "maxFlag (xs @ [x]) = ?m" by (simp add: maxFlag_snoc)
    from snoc.IH show ?thesis
    proof
      assume a: "?m = \<lparr>flag_type = None, flag_value = Fin (- 1)\<rparr>
                 \<and> (\<forall>r\<in>set xs. \<not> js_gt (flag_value r) (Fin (- 1)))"
      then have "\<not> js_gt (flag_value x) (Fin (- 1))" using False by simp
      then show ?thesis using a eq by simp
    next
      assume "\<exists>i. is_first_max xs i \<and> ?m = xs ! i"
      then obtain i where i: "is_first_max xs i" "?m = xs ! i" by blast
      have "is_first_max (xs @ [x]) i"
        using i False unfolding is_first_max_def
        by (auto simp: nth_append less_Suc_eq)
      moreover have "maxFlag (xs @ [x]) = (xs @ [x]) ! i"
        using i eq by (simp add: nth_append is_first_max_def)
      ultimately show ?thesis by blast
    qed
  qed
qed


lemma status_stored_row:
  "status (stored_row apikey c results) =
     (if js_ge (flag_value (maxFlag results)) (rnd64 (7 / 10)) then ''flagged''
      else if js_lt (flag_value (maxFlag results)) (rnd64 (3 / 10)) then ''clean''
      else ''borderline'')"
  by (simp add: stored_row_def Let_def)




subsection \<open>C2: the thresholds of the status\<close>


subsection \<open>C3: the scan for the dominant record\<close>

text \<open>
  C3. The dominant record is found by a linear scan from the sentinel of value -1
  that replaces the running maximum only by a strictly greater value. So either no
  record is above the sentinel and the sentinel is the result, or the result is the
  first record of the greatest value: no earlier record reaches its value and no
  record exceeds it. A record of a value of at least 0 supersedes the sentinel. On the
  tie of toxicity 0.8 and spam 0.8 the scan picks toxicity, and the status is
  \<^verbatim>\<open>flagged\<close>.
\<close>

theorem dominant_flag_scan:
  "maxFlag results =
     foldl (\<lambda>m r. if js_gt (flag_value r) (flag_value m) then r else m)
       \<lparr>flag_type = None, flag_value = Fin (- 1)\<rparr> results
   \<and> ((maxFlag results = \<lparr>flag_type = None, flag_value = Fin (- 1)\<rparr>
        \<and> (\<forall>r\<in>set results. \<not> js_gt (flag_value r) (Fin (- 1))))
       \<or> (\<exists>i. is_first_max results i \<and> maxFlag results = results ! i))
   \<and> ((\<exists>r\<in>set results. js_ge (flag_value r) (Fin 0))
        \<longrightarrow> (\<exists>i. is_first_max results i \<and> maxFlag results = results ! i))
   \<and> maxFlag [\<lparr>flag_type = Some ''toxicity'', flag_value = rnd64 (8 / 10)\<rparr>,
               \<lparr>flag_type = Some ''spam'', flag_value = rnd64 (8 / 10)\<rparr>]
       = \<lparr>flag_type = Some ''toxicity'', flag_value = rnd64 (8 / 10)\<rparr>
   \<and> status (stored_row apikey c
               [\<lparr>flag_type = Some ''toxicity'', flag_value = rnd64 (8 / 10)\<rparr>,
                \<lparr>flag_type = Some ''spam'', flag_value = rnd64 (8 / 10)\<rparr>])
       = ''flagged''"
proof -
  have def: "maxFlag results =
     foldl (\<lambda>m r. if js_gt (flag_value r) (flag_value m) then r else m)
       \<lparr>flag_type = None, flag_value = Fin (- 1)\<rparr> results"
    by (simp add: maxFlag_def)
  have sup: "(\<exists>r\<in>set results. js_ge (flag_value r) (Fin 0))
        \<longrightarrow> (\<exists>i. is_first_max results i \<and> maxFlag results = results ! i)"
  proof
    assume "\<exists>r\<in>set results. js_ge (flag_value r) (Fin 0)"
    then obtain r where r: "r \<in> set results" "js_ge (flag_value r) (Fin 0)" by blast
    then have "js_gt (flag_value r) (Fin (- 1))"
      by (cases "flag_value r") (simp_all add: js_ge_def js_gt_def)
    with r(1) maxFlag_scan[of results]
    show "\<exists>i. is_first_max results i \<and> maxFlag results = results ! i" by blast
  qed
  have tie: "maxFlag [\<lparr>flag_type = Some ''toxicity'', flag_value = rnd64 (8 / 10)\<rparr>,
               \<lparr>flag_type = Some ''spam'', flag_value = rnd64 (8 / 10)\<rparr>]
       = \<lparr>flag_type = Some ''toxicity'', flag_value = rnd64 (8 / 10)\<rparr>"
    by (simp add: maxFlag_def rnd64_08 js_gt_def)
  have st: "status (stored_row apikey c
               [\<lparr>flag_type = Some ''toxicity'', flag_value = rnd64 (8 / 10)\<rparr>,
                \<lparr>flag_type = Some ''spam'', flag_value = rnd64 (8 / 10)\<rparr>])
       = ''flagged''"
    unfolding status_stored_row tie by (simp add: rnd64_08 rnd64_07 js_ge_def)
  show ?thesis using def maxFlag_scan[of results] sup tie st by blast
qed

text \<open>The scan on toxicity 0 and spam 1: a record of value at least 0 is there.\<close>

theorem dominant_flag_scan_witness:
  "(\<exists>r\<in>set [\<lparr>flag_type = Some ''toxicity'', flag_value = Fin 0\<rparr>,
                \<lparr>flag_type = Some ''spam'', flag_value = Fin 1\<rparr>].
        js_ge (flag_value r) (Fin 0))
   \<and> (\<exists>i. is_first_max [\<lparr>flag_type = Some ''toxicity'', flag_value = Fin 0\<rparr>,
                         \<lparr>flag_type = Some ''spam'', flag_value = Fin 1\<rparr>] i
          \<and> maxFlag [\<lparr>flag_type = Some ''toxicity'', flag_value = Fin 0\<rparr>,
                     \<lparr>flag_type = Some ''spam'', flag_value = Fin 1\<rparr>]
              = [\<lparr>flag_type = Some ''toxicity'', flag_value = Fin 0\<rparr>,
                 \<lparr>flag_type = Some ''spam'', flag_value = Fin 1\<rparr>] ! i)"
proof -
  let ?xs = "[\<lparr>flag_type = Some ''toxicity'', flag_value = Fin 0\<rparr>,
              \<lparr>flag_type = Some ''spam'', flag_value = Fin 1\<rparr>]"
  have h: "\<exists>r\<in>set ?xs. js_ge (flag_value r) (Fin 0)" by (simp add: js_ge_def)
  have "(\<exists>r\<in>set ?xs. js_ge (flag_value r) (Fin 0))
        \<longrightarrow> (\<exists>i. is_first_max ?xs i \<and> maxFlag ?xs = ?xs ! i)"
    using dominant_flag_scan[of ?xs, THEN conjunct2, THEN conjunct2, THEN conjunct1] .
  from this h have "\<exists>i. is_first_max ?xs i \<and> maxFlag ?xs = ?xs ! i" by (rule mp)
  with h show ?thesis by (rule conjI)
qed

section \<open>The response formatter\<close>

lemma formatResponse_length: "length (formatResponse scores) = length FLAG_TYPES"
  by (simp add: formatResponse_def)

lemma formatResponse_nth:
  "i < length FLAG_TYPES \<Longrightarrow>
     formatResponse scores ! i =
       \<lparr>flag_type = Some (FLAG_TYPES ! i), flag_value = or_zero (scores (FLAG_TYPES ! i))\<rparr>"
  by (simp add: formatResponse_def)

lemma or_zero_Some: "a \<noteq> NaN \<Longrightarrow> or_zero (Some a) = a"
  by (simp add: or_zero_def num_truthy_def)

lemma or_zero_None: "or_zero None = Fin 0"
  by (simp add: or_zero_def)

subsection \<open>C5: one record for each flag type, in order\<close>

text \<open>
  C5. For every score mapping the formatter returns six flag records, one for each
  recognized flag type, in the declared order toxicity, harassment, hate-speech,
  sexual, violence, spam, whatever the mapping holds; a flag type missing from the
  mapping gets the value 0, and a score that is there is passed on. The formatter is a
  total function of the mapping: it has no effect and cannot fail.
\<close>

theorem formatResponse_records:
  "map flag_type (formatResponse scores) =
     [Some ''toxicity'', Some ''harassment'', Some ''hate-speech'', Some ''sexual'',
      Some ''violence'', Some ''spam'']
   \<and> length (formatResponse scores) = 6
   \<and> (\<forall>i<length FLAG_TYPES.
         flag_type (formatResponse scores ! i) = Some (FLAG_TYPES ! i)
       \<and> (scores (FLAG_TYPES ! i) = None \<longrightarrow> flag_value (formatResponse scores ! i) = Fin 0)
       \<and> (\<forall>a. scores (FLAG_TYPES ! i) = Some a \<longrightarrow> a \<noteq> NaN
              \<longrightarrow> flag_value (formatResponse scores ! i) = a))"
proof -
  have "map flag_type (formatResponse scores) = map Some FLAG_TYPES"
    by (simp add: formatResponse_def comp_def)
  then have a: "map flag_type (formatResponse scores) =
     [Some ''toxicity'', Some ''harassment'', Some ''hate-speech'', Some ''sexual'',
      Some ''violence'', Some ''spam'']"
    by (simp add: FLAG_TYPES_def)
  have b: "length (formatResponse scores) = 6"
    by (simp add: formatResponse_length FLAG_TYPES_def)
  have c: "\<forall>i<length FLAG_TYPES.
         flag_type (formatResponse scores ! i) = Some (FLAG_TYPES ! i)
       \<and> (scores (FLAG_TYPES ! i) = None \<longrightarrow> flag_value (formatResponse scores ! i) = Fin 0)
       \<and> (\<forall>a. scores (FLAG_TYPES ! i) = Some a \<longrightarrow> a \<noteq> NaN
              \<longrightarrow> flag_value (formatResponse scores ! i) = a)"
    by (simp add: formatResponse_nth or_zero_Some or_zero_None)
  from a b c show ?thesis by (intro conjI)
qed

text \<open>
  The formatter on a mapping that holds toxicity 0.5 only: harassment is missing and
  gets 0, toxicity keeps 0.5.
\<close>

theorem formatResponse_records_witness:
  "(1::nat) < length FLAG_TYPES
   \<and> [''toxicity'' \<mapsto> Fin (1 / 2)] (FLAG_TYPES ! 1) = None
   \<and> flag_value (formatResponse [''toxicity'' \<mapsto> Fin (1 / 2)] ! 1) = Fin 0
   \<and> [''toxicity'' \<mapsto> Fin (1 / 2)] (FLAG_TYPES ! 0) = Some (Fin (1 / 2))
   \<and> flag_value (formatResponse [''toxicity'' \<mapsto> Fin (1 / 2)] ! 0) = Fin (1 / 2)"
proof -
  let ?s = "[''toxicity'' \<mapsto> Fin (1 / 2)]"
  have l: "(1::nat) < length FLAG_TYPES" "(0::nat) < length FLAG_TYPES"
    by (simp_all add: FLAG_TYPES_def)
  have n: "?s (FLAG_TYPES ! 1) = None" by (simp add: FLAG_TYPES_def)
  have t: "?s (FLAG_TYPES ! 0) = Some (Fin (1 / 2))" by (simp add: FLAG_TYPES_def)
  have all: "\<forall>i<length FLAG_TYPES.
         flag_type (formatResponse ?s ! i) = Some (FLAG_TYPES ! i)
       \<and> (?s (FLAG_TYPES ! i) = None \<longrightarrow> flag_value (formatResponse ?s ! i) = Fin 0)
       \<and> (\<forall>a. ?s (FLAG_TYPES ! i) = Some a \<longrightarrow> a \<noteq> NaN
              \<longrightarrow> flag_value (formatResponse ?s ! i) = a)"
    using formatResponse_records[of ?s, THEN conjunct2, THEN conjunct2] .
  have "flag_value (formatResponse ?s ! 1) = Fin 0"
    using all l(1) n by blast
  moreover have "flag_value (formatResponse ?s ! 0) = Fin (1 / 2)"
    using all l(2) t by blast
  ultimately show ?thesis using l n t by (intro conjI)
qed

section \<open>The fallback generator\<close>

lemma generateRandomScores_eq:
  "generateRandomScores src n =
     ([''toxicity'' \<mapsto> round2 (Fin (src n)),
       ''harassment'' \<mapsto> round2 (Fin (src (n + 1))),
       ''hate-speech'' \<mapsto> round2 (Fin (src (n + 2))),
       ''sexual'' \<mapsto> round2 (Fin (src (n + 3))),
       ''violence'' \<mapsto> round2 (Fin (src (n + 4))),
       ''spam'' \<mapsto> round2 (Fin (src (n + 5)))], n + 6)"
  by (simp add: generateRandomScores_def FLAG_TYPES_def Math_random_def round2_def
        eval_nat_numeral)

lemma source_score:
  assumes "valid_source src"
  shows "unit_interval (round2 (Fin (src i))) \<and> two_decimals (round2 (Fin (src i)))"
proof -
  have "0 \<le> src i \<and> src i < 1" using assms by (simp add: valid_source_def)
  then have "unit_interval (Fin (src i))" by (simp add: unit_interval_def)
  then show ?thesis by (rule round2_range)
qed

lemma fallback_score_mapping:
  assumes "valid_source src"
  shows "score_mapping (fst (generateRandomScores src n))"
  unfolding score_mapping_def generateRandomScores_eq fst_conv flag_types_set
  using source_score[OF assms] by (simp add: insert_commute)

lemma round2_quarter: "round2 (Fin (1 / 4)) = Fin (1 / 4)"
  by (simp add: round2_def js_mul_def js_div_def Math_round_def rnd64_25 rnd64_quarter)

lemma round2_three_quarters: "round2 (Fin (3 / 4)) = Fin (3 / 4)"
  by (simp add: round2_def js_mul_def js_div_def Math_round_def rnd64_75
        rnd64_three_quarters)

lemma offline_source: "valid_source (random_source offline_world)"
  by (simp add: valid_source_def offline_world_def)

subsection \<open>C7: the fallback scores\<close>

text \<open>
  C7. The fallback generator is a total function of the random source, so it never
  throws. Every call draws six values, one for each recognized flag type in the
  declared order, and returns the mapping of each flag type to its draw rounded to two
  decimals: the keys are exactly the flag types and every value lies between 0 and 1
  with two decimals. The random source yields doubles in \<open>[0, 1)\<close>.
\<close>

theorem fallback_scores:
  assumes "valid_source src"
  shows "fst (generateRandomScores src n) =
           [''toxicity'' \<mapsto> round2 (Fin (src n)),
            ''harassment'' \<mapsto> round2 (Fin (src (n + 1))),
            ''hate-speech'' \<mapsto> round2 (Fin (src (n + 2))),
            ''sexual'' \<mapsto> round2 (Fin (src (n + 3))),
            ''violence'' \<mapsto> round2 (Fin (src (n + 4))),
            ''spam'' \<mapsto> round2 (Fin (src (n + 5)))]
         \<and> snd (generateRandomScores src n) = n + 6
         \<and> dom (fst (generateRandomScores src n)) = set FLAG_TYPES
         \<and> score_mapping (fst (generateRandomScores src n))"
proof -
  have m: "score_mapping (fst (generateRandomScores src n))"
    using assms by (rule fallback_score_mapping)
  then have "dom (fst (generateRandomScores src n)) = set FLAG_TYPES"
    by (simp add: score_mapping_def)
  with m show ?thesis by (simp add: generateRandomScores_eq)
qed

text \<open>
  The generator on the source that alternates between 0.25 and 0.75, from its start.
\<close>

theorem fallback_scores_witness:
  "valid_source (random_source offline_world)
   \<and> fst (generateRandomScores (random_source offline_world) 0) ''toxicity''
       = Some (Fin (1 / 4))
   \<and> fst (generateRandomScores (random_source offline_world) 0) ''harassment''
       = Some (Fin (3 / 4))
   \<and> snd (generateRandomScores (random_source offline_world) 0) = 6
   \<and> score_mapping (fst (generateRandomScores (random_source offline_world) 0))"
proof -
  let ?g = "generateRandomScores (random_source offline_world) 0"
  note t = fallback_scores[OF offline_source, of 0]
  have e: "fst ?g =
           [''toxicity'' \<mapsto> round2 (Fin (random_source offline_world 0)),
            ''harassment'' \<mapsto> round2 (Fin (random_source offline_world (0 + 1))),
            ''hate-speech'' \<mapsto> round2 (Fin (random_source offline_world (0 + 2))),
            ''sexual'' \<mapsto> round2 (Fin (random_source offline_world (0 + 3))),
            ''violence'' \<mapsto> round2 (Fin (random_source offline_world (0 + 4))),
            ''spam'' \<mapsto> round2 (Fin (random_source offline_world (0 + 5)))]"
    using t by (rule conjunct1)
  have n: "snd ?g = 6" using t[THEN conjunct2, THEN conjunct1] by simp
  have m: "score_mapping (fst ?g)" using t[THEN conjunct2, THEN conjunct2, THEN conjunct2] .
  have s0: "round2 (Fin (random_source offline_world 0)) = Fin (1 / 4)"
    by (simp add: offline_world_def round2_quarter)
  have s1: "round2 (Fin (random_source offline_world (0 + 1))) = Fin (3 / 4)"
    by (simp add: offline_world_def round2_three_quarters)
  have a: "fst ?g ''toxicity'' = Some (Fin (1 / 4))"
    unfolding e s0 by simp
  have b: "fst ?g ''harassment'' = Some (Fin (3 / 4))"
    unfolding e s1 by simp
  from offline_source a b n m show ?thesis by (intro conjI)
qed

section \<open>The request handlers\<close>

lemma verify_events: "snd (verifyApiKey w k) = [KeyLookup k]"
  by (simp add: verifyApiKey_def split: reply.splits)

lemma verify_iff:
  "fst (verifyApiKey w k) = (\<exists>d. api_key_single w k = Reply d None \<and> truthy d)"
  by (auto simp: verifyApiKey_def split: reply.splits)

lemma analyze_events: "snd (analyzeContentWithAI w c) = [ClassifierCall c]"
  by (simp add: analyzeContentWithAI_def split: http_outcome.splits sum.splits)

lemma analyze_scores:
  assumes "fst (analyzeContentWithAI w c) = Inr scores"
  shows "score_mapping scores"
proof -
  from assms obtain raw where "parseAndValidateScores (gives_up w) (JSON_parse w) raw = Inr scores"
    by (auto simp: analyzeContentWithAI_def split: http_outcome.splits sum.splits)
  then show ?thesis by (rule parse_score_mapping)
qed

lemma fallback_events: "snd (scores_or_fallback w c) = [ClassifierCall c]"
proof (cases "analyzeContentWithAI w c")
  case (Pair r evs)
  then have "evs = [ClassifierCall c]" using analyze_events[of w c] by simp
  with Pair show ?thesis by (cases r) (simp_all add: scores_or_fallback_def)
qed

lemma fallback_ok:
  "fst (analyzeContentWithAI w c) = Inr scores \<Longrightarrow> fst (scores_or_fallback w c) = scores"
  by (cases "analyzeContentWithAI w c") (simp add: scores_or_fallback_def)

lemma fallback_fails:
  "classifier_fails w c \<Longrightarrow>
     fst (scores_or_fallback w c) =
       fst (generateRandomScores (random_source w) (random_pos w))"
  by (cases "analyzeContentWithAI w c")
     (auto simp: scores_or_fallback_def classifier_fails_def split: sum.splits)

lemma fallback_mapping:
  assumes "valid_source (random_source w)"
  shows "score_mapping (fst (scores_or_fallback w c))"
proof (cases "fst (analyzeContentWithAI w c)")
  case (Inl e)
  then have "classifier_fails w c" by (simp add: classifier_fails_def)
  then show ?thesis using assms by (simp add: fallback_fails fallback_score_mapping)
next
  case (Inr scores)
  then show ?thesis using analyze_scores[OF Inr] by (simp add: fallback_ok)
qed

lemma store_events:
  "snd (storeResultsInSupabase w k c results) = [InsertRow (stored_row k c results)]"
  by (simp add: storeResultsInSupabase_def Let_def split: reply.splits option.splits)

lemma store_error:
  "fst (storeResultsInSupabase w k c results) = Inl e \<Longrightarrow> \<exists>m. e = PostgrestError m"
  by (auto simp: storeResultsInSupabase_def Let_def split: reply.splits option.splits)

lemma valid_content_iff:
  "(\<not> truthy c \<or> \<not> is_string c) = (\<not> is_string c \<or> c = JStr [])"
  by (cases c) (auto simp: truthy_def is_string_def)

lemma moderate_400:
  assumes "\<not> is_string (own_prop b ''content'') \<or> own_prop b ''content'' = JStr []"
  shows "moderate w b = ((400, ErrorBody ''Valid content string is required'' None), [])"
  using assms valid_content_iff[of "own_prop b ''content''"]
  by (simp add: moderate_def Let_def)

lemma moderate_401:
  assumes "is_string (own_prop b ''content'')" "own_prop b ''content'' \<noteq> JStr []"
    and "\<not> truthy (own_prop b ''apikey'')"
  shows "moderate w b = ((401, ErrorBody ''API key is required'' None), [])"
  using assms valid_content_iff[of "own_prop b ''content''"]
  by (simp add: moderate_def Let_def)

lemma moderate_403:
  assumes "is_string (own_prop b ''content'')" "own_prop b ''content'' \<noteq> JStr []"
    and "truthy (own_prop b ''apikey'')"
    and "\<not> fst (verifyApiKey w (own_prop b ''apikey''))"
  shows "moderate w b = ((403, ErrorBody ''Invalid API key'' None),
                         [KeyLookup (own_prop b ''apikey'')])"
proof -
  obtain ok evs where v: "verifyApiKey w (own_prop b ''apikey'') = (ok, evs)"
    by (cases "verifyApiKey w (own_prop b ''apikey'')")
  then have "\<not> ok" "evs = [KeyLookup (own_prop b ''apikey'')]"
    using assms(4) verify_events[of w "own_prop b ''apikey''"] by simp_all
  then show ?thesis
    using assms(1-3) v valid_content_iff[of "own_prop b ''content''"]
    by (simp add: moderate_def Let_def)
qed

lemma moderate_accepted:
  assumes "is_string (own_prop b ''content'')" "own_prop b ''content'' \<noteq> JStr []"
    and "truthy (own_prop b ''apikey'')"
    and "fst (verifyApiKey w (own_prop b ''apikey''))"
  shows "moderate w b =
     (let c = own_prop b ''content''; k = own_prop b ''apikey'';
          results = formatResponse (fst (scores_or_fallback w c))
      in (case fst (storeResultsInSupabase w k c results) of
            Inl e \<Rightarrow> (500, ErrorBody ''Internal server error'' (Some (message e)))
          | Inr d \<Rightarrow> (200, FlagList results),
          [KeyLookup k, ClassifierCall c, InsertRow (stored_row k c results)]))"
proof -
  let ?c = "own_prop b ''content''" and ?k = "own_prop b ''apikey''"
  obtain ok evs where v: "verifyApiKey w ?k = (ok, evs)"
    by (cases "verifyApiKey w ?k")
  then have v': "ok" "evs = [KeyLookup ?k]"
    using assms(4) verify_events[of w ?k] by simp_all
  obtain scores evs2 where s: "scores_or_fallback w ?c = (scores, evs2)"
    by (cases "scores_or_fallback w ?c")
  then have s': "evs2 = [ClassifierCall ?c]" using fallback_events[of w ?c] by simp
  obtain st evs3 where t: "storeResultsInSupabase w ?k ?c (formatResponse scores) = (st, evs3)"
    by (cases "storeResultsInSupabase w ?k ?c (formatResponse scores)")
  then have t': "evs3 = [InsertRow (stored_row ?k ?c (formatResponse scores))]"
    using store_events[of w ?k ?c "formatResponse scores"] by simp
  show ?thesis
    using assms(1-3) v v' s s' t t' valid_content_iff[of ?c]
    by (cases st) (simp_all add: moderate_def Let_def)
qed

lemma test_moderate_valid:
  assumes "is_string (own_prop b ''content'')" "own_prop b ''content'' \<noteq> JStr []"
  shows "test_moderate w b =
     ((200, FlagList (formatResponse (fst (scores_or_fallback w (own_prop b ''content''))))),
      [ClassifierCall (own_prop b ''content'')])"
proof -
  let ?c = "own_prop b ''content''"
  obtain scores evs where s: "scores_or_fallback w ?c = (scores, evs)"
    by (cases "scores_or_fallback w ?c")
  then have "evs = [ClassifierCall ?c]" using fallback_events[of w ?c] by simp
  then show ?thesis
    using assms s valid_content_iff[of ?c] by (simp add: test_moderate_def Let_def)
qed

lemma unit_interval_not_NaN: "unit_interval a \<Longrightarrow> a \<noteq> NaN"
  by (auto simp: unit_interval_def)

lemma score_mapping_entry:
  assumes "score_mapping scores" and "f \<in> set FLAG_TYPES"
  shows "unit_interval (or_zero (scores f)) \<and> two_decimals (or_zero (scores f))"
proof -
  from assms obtain a where a: "scores f = Some a" "unit_interval a" "two_decimals a"
    by (auto simp: score_mapping_def split: option.splits)
  then have "or_zero (scores f) = a"
    by (simp add: or_zero_Some unit_interval_not_NaN)
  with a show ?thesis by simp
qed

lemma formatResponse_valid:
  assumes "score_mapping scores"
  shows "valid_flag_list (formatResponse scores)"
proof -
  have "map flag_type (formatResponse scores) = map Some FLAG_TYPES"
    by (simp add: formatResponse_def comp_def)
  moreover have "list_all (\<lambda>r. unit_interval (flag_value r) \<and> two_decimals (flag_value r))
                   (formatResponse scores)"
    using score_mapping_entry[OF assms]
    by (simp add: formatResponse_def list_all_iff)
  ultimately show ?thesis by (simp add: valid_flag_list_def)
qed

lemma classifier_fails_iff:
  "classifier_fails w c =
     (case axios_post w c of
        HttpFails m \<Rightarrow> True
      | HttpOk d \<Rightarrow> (case ai_content d of
                       Inl e \<Rightarrow> True
                     | Inr raw \<Rightarrow> isl (parseAndValidateScores (gives_up w) (JSON_parse w) raw)))"
  by (simp add: classifier_fails_def analyzeContentWithAI_def
        split: http_outcome.splits sum.splits)

lemma offline_fails: "classifier_fails offline_world c"
  by (simp add: classifier_fails_iff offline_world_def)

lemma offline_fallback:
  "formatResponse (fst (generateRandomScores (random_source offline_world) 0)) =
     [\<lparr>flag_type = Some ''toxicity'', flag_value = Fin (1 / 4)\<rparr>,
      \<lparr>flag_type = Some ''harassment'', flag_value = Fin (3 / 4)\<rparr>,
      \<lparr>flag_type = Some ''hate-speech'', flag_value = Fin (1 / 4)\<rparr>,
      \<lparr>flag_type = Some ''sexual'', flag_value = Fin (3 / 4)\<rparr>,
      \<lparr>flag_type = Some ''violence'', flag_value = Fin (1 / 4)\<rparr>,
      \<lparr>flag_type = Some ''spam'', flag_value = Fin (3 / 4)\<rparr>]"
  by (simp add: formatResponse_def FLAG_TYPES_def generateRandomScores_eq offline_world_def
        round2_quarter round2_three_quarters or_zero_def num_truthy_def)

subsection \<open>C8: the rejections of the authenticated endpoint\<close>

text \<open>
  C8. For every request to \<^verbatim>\<open>POST /moderate\<close>: when the content is missing, empty
  or not a string the response is 400; otherwise, when the API key is absent (missing,
  or a value that counts as false) the response is 401; otherwise, when the key fails
  the lookup in the key store (no row, an error, or a rejected call) the response is
  403. A request answered with 400, 401 or 403 has called neither the classifier nor
  the insert; of the collaborators only the key store is asked, and only for the 403.
\<close>

theorem moderate_rejections:
  "(\<not> is_string (own_prop b ''content'') \<or> own_prop b ''content'' = JStr []
      \<longrightarrow> moderate w b = ((400, ErrorBody ''Valid content string is required'' None), []))
   \<and> (is_string (own_prop b ''content'') \<and> own_prop b ''content'' \<noteq> JStr []
        \<and> \<not> truthy (own_prop b ''apikey'')
      \<longrightarrow> moderate w b = ((401, ErrorBody ''API key is required'' None), []))
   \<and> (is_string (own_prop b ''content'') \<and> own_prop b ''content'' \<noteq> JStr []
        \<and> truthy (own_prop b ''apikey'') \<and> \<not> fst (verifyApiKey w (own_prop b ''apikey''))
      \<longrightarrow> moderate w b = ((403, ErrorBody ''Invalid API key'' None),
                           [KeyLookup (own_prop b ''apikey'')]))
   \<and> (fst (fst (moderate w b)) \<in> {400, 401, 403}
      \<longrightarrow> \<not> list_ex is_classifier_call (snd (moderate w b))
          \<and> \<not> list_ex is_insert (snd (moderate w b)))
   \<and> fst (verifyApiKey w (own_prop b ''apikey''))
       = (\<exists>d. api_key_single w (own_prop b ''apikey'') = Reply d None \<and> truthy d)"
proof -
  let ?c = "own_prop b ''content''" and ?k = "own_prop b ''apikey''"
  have quiet: "fst (fst (moderate w b)) \<in> {400, 401, 403}
      \<longrightarrow> \<not> list_ex is_classifier_call (snd (moderate w b))
          \<and> \<not> list_ex is_insert (snd (moderate w b))"
  proof (cases "is_string ?c \<and> ?c \<noteq> JStr [] \<and> truthy ?k \<and> fst (verifyApiKey w ?k)")
    case True
    then have "fst (fst (moderate w b)) = 500 \<or> fst (fst (moderate w b)) = 200"
      by (simp add: moderate_accepted Let_def split: sum.splits)
    then show ?thesis by auto
  next
    case False
    then consider "\<not> is_string ?c \<or> ?c = JStr []"
      | "is_string ?c" "?c \<noteq> JStr []" "\<not> truthy ?k"
      | "is_string ?c" "?c \<noteq> JStr []" "truthy ?k" "\<not> fst (verifyApiKey w ?k)"
      by blast
    then show ?thesis
    proof cases
      case 1
      then show ?thesis by (simp add: moderate_400)
    next
      case 2
      then show ?thesis by (simp add: moderate_401)
    next
      case 3
      then show ?thesis
        by (simp add: moderate_403 is_classifier_call_def is_insert_def)
    qed
  qed
  show ?thesis
    using moderate_400[of b w] moderate_401[of b w] moderate_403[of b w] quiet
      verify_iff[of w ?k]
    by blast
qed

text \<open>
  Four requests to a world whose key store holds the key \<^verbatim>\<open>secret\<close>: empty content,
  no content, no key, a wrong key.
\<close>

theorem moderate_rejections_witness:
  "moderate offline_world [(utf16 ''content'', JStr [])]
     = ((400, ErrorBody ''Valid content string is required'' None), [])
   \<and> moderate offline_world [(utf16 ''apikey'', JStr (utf16 ''secret''))]
     = ((400, ErrorBody ''Valid content string is required'' None), [])
   \<and> moderate offline_world [(utf16 ''content'', JStr (utf16 ''hello''))]
     = ((401, ErrorBody ''API key is required'' None), [])
   \<and> moderate offline_world [(utf16 ''content'', JStr (utf16 ''hello'')), (utf16 ''apikey'', JStr (utf16 ''wrong''))]
     = ((403, ErrorBody ''Invalid API key'' None), [KeyLookup (JStr (utf16 ''wrong''))])"
proof -
  have a: "moderate offline_world [(utf16 ''content'', JStr [])]
     = ((400, ErrorBody ''Valid content string is required'' None), [])"
    using moderate_rejections[of "[(utf16 ''content'', JStr [])]" offline_world]
    by (simp add: own_prop_def)
  have b: "moderate offline_world [(utf16 ''apikey'', JStr (utf16 ''secret''))]
     = ((400, ErrorBody ''Valid content string is required'' None), [])"
    using moderate_rejections[of "[(utf16 ''apikey'', JStr (utf16 ''secret''))]" offline_world]
    by (simp add: own_prop_def is_string_def)
  have c: "moderate offline_world [(utf16 ''content'', JStr (utf16 ''hello''))]
     = ((401, ErrorBody ''API key is required'' None), [])"
    using moderate_rejections[of "[(utf16 ''content'', JStr (utf16 ''hello''))]" offline_world]
    by (simp add: own_prop_def is_string_def truthy_def)
  have v: "\<not> fst (verifyApiKey offline_world (JStr (utf16 ''wrong'')))"
    by (simp add: verifyApiKey_def offline_world_def)
  have d: "moderate offline_world [(utf16 ''content'', JStr (utf16 ''hello'')), (utf16 ''apikey'', JStr (utf16 ''wrong''))]
     = ((403, ErrorBody ''Invalid API key'' None), [KeyLookup (JStr (utf16 ''wrong''))])"
    using moderate_rejections[of "[(utf16 ''content'', JStr (utf16 ''hello'')), (utf16 ''apikey'', JStr (utf16 ''wrong''))]"
        offline_world] v
    by (simp add: own_prop_def is_string_def truthy_def)
  from a b c d show ?thesis by (intro conjI)
qed

subsection \<open>C9: a failing classifier call is recovered\<close>

lemma zeros_of_no_score:
  assumes "P raw = Some v" and "holds_no_score v"
  shows "parseAndValidateScores E P raw = Inr zero_scores"
proof -
  have g: "\<And>f. f \<in> set FLAG_TYPES \<Longrightarrow> get_prop v f = Inr JUndefined"
    using assms(2) by (simp add: holds_no_score_def list_all_iff)
  then have "\<forall>f\<in>set FLAG_TYPES. \<not> flag_conversion_throws E v f"
    by (simp add: flag_conversion_throws_def)
  from parse_ok[where E = E and P = P and raw = raw, OF assms(1) this]
  have "parseAndValidateScores E P raw =
          Inr (\<lambda>f. if f \<in> set FLAG_TYPES
                   then Some (normalized (string_to_number (raw_flag v f))) else None)" .
  moreover have "(\<lambda>f. if f \<in> set FLAG_TYPES
                   then Some (normalized (string_to_number (raw_flag v f))) else None)
                = zero_scores"
    unfolding zero_scores_def
    by (rule ext) (simp add: raw_flag_def g normalized_NaN)
  ultimately show ?thesis by simp
qed

lemma formatResponse_zero_scores:
  "formatResponse zero_scores =
     map (\<lambda>f. \<lparr>flag_type = Some f, flag_value = Fin 0\<rparr>) FLAG_TYPES"
  by (simp add: formatResponse_def zero_scores_def or_zero_def num_truthy_def)

lemma no_score_answer:
  assumes "axios_post w c = HttpOk d" and "ai_content d = Inr raw"
    and "JSON_parse w raw = Some v" and "holds_no_score v"
  shows "fst (analyzeContentWithAI w c) = Inr zero_scores"
  using assms zeros_of_no_score[of "JSON_parse w" raw v "gives_up w"]
  by (simp add: analyzeContentWithAI_def)

lemma junk_answer:
  "fst (analyzeContentWithAI junk_world c) = Inr zero_scores"
proof (rule no_score_answer)
  show "axios_post junk_world c =
          HttpOk (JObj [(utf16 ''choices'',
                    JArr [JObj [(utf16 ''message'',
                      JObj [(utf16 ''content'', JStr (utf16 ''5''))])]])])"
    by (simp add: junk_world_def)
  show "ai_content (JObj [(utf16 ''choices'',
                    JArr [JObj [(utf16 ''message'',
                      JObj [(utf16 ''content'', JStr (utf16 ''5''))])]])])
          = Inr (JStr (utf16 ''5''))"
    by (simp add: ai_content_def get_prop_def own_prop_def get_index0_def)
  show "JSON_parse junk_world (JStr (utf16 ''5'')) = Some (JNum (Fin 5))"
    by (simp add: junk_world_def)
  show "holds_no_score (JNum (Fin 5))"
    by (simp add: holds_no_score_def get_prop_def list_all_iff)
qed

lemma junk_fallback:
  "formatResponse (fst (generateRandomScores (random_source junk_world) (random_pos junk_world)))
     = formatResponse (fst (generateRandomScores (random_source offline_world) 0))"
  by (simp add: junk_world_def offline_world_def)

text \<open>
  C9 (as amended). The classifier call fails when the request is rejected (time-out,
  network error, status outside 2xx), when the response lacks
  \<^verbatim>\<open>choices[0].message.content\<close>, or when the normalizer raises on that content.
  Whenever it fails, the fallback scores stand in and the failure never reaches the
  caller: \<^verbatim>\<open>POST /test/moderate\<close> with valid content answers 200 with the formatted
  fallback scores and inserts nothing; \<^verbatim>\<open>POST /moderate\<close> with valid content and a
  verified key answers 200 with them when the insert succeeds, and its only 500 carries
  the message of the failed insert. With a random source in \<open>[0, 1)\<close> the fallback list
  is a valid list of flag records. A malformed payload on which the normalizer does not
  raise is no failure and gets no fallback: when the call does not fail, the scores of
  the normalizer are the ones that are formatted, and a payload that parses to a value
  holding no score (a number, a string, a boolean, an array, an object with none of
  the six keys) is answered with 0 for every flag type.
\<close>

theorem classifier_failure_recovered:
  "classifier_fails w (own_prop b ''content'') =
     (case axios_post w (own_prop b ''content'') of
        HttpFails m \<Rightarrow> True
      | HttpOk d \<Rightarrow> (case ai_content d of
                       Inl e \<Rightarrow> True
                     | Inr raw \<Rightarrow> isl (parseAndValidateScores (gives_up w) (JSON_parse w) raw)))
   \<and> (is_string (own_prop b ''content'') \<and> own_prop b ''content'' \<noteq> JStr []
        \<and> classifier_fails w (own_prop b ''content'')
      \<longrightarrow> test_moderate w b =
            ((200, FlagList (formatResponse
                     (fst (generateRandomScores (random_source w) (random_pos w))))),
             [ClassifierCall (own_prop b ''content'')])
          \<and> \<not> list_ex is_insert (snd (test_moderate w b)))
   \<and> (is_string (own_prop b ''content'') \<and> own_prop b ''content'' \<noteq> JStr []
        \<and> truthy (own_prop b ''apikey'') \<and> fst (verifyApiKey w (own_prop b ''apikey''))
        \<and> classifier_fails w (own_prop b ''content'')
      \<longrightarrow> (case fst (storeResultsInSupabase w (own_prop b ''apikey'') (own_prop b ''content'')
                       (formatResponse
                          (fst (generateRandomScores (random_source w) (random_pos w))))) of
             Inl e \<Rightarrow> (\<exists>m. e = PostgrestError m)
                      \<and> fst (moderate w b)
                          = (500, ErrorBody ''Internal server error'' (Some (message e)))
           | Inr d \<Rightarrow> fst (moderate w b)
                        = (200, FlagList (formatResponse
                             (fst (generateRandomScores (random_source w) (random_pos w)))))))
   \<and> (valid_source (random_source w)
      \<longrightarrow> valid_flag_list
            (formatResponse (fst (generateRandomScores (random_source w) (random_pos w)))))
   \<and> (\<not> classifier_fails w (own_prop b ''content'')
      \<longrightarrow> (\<exists>scores. fst (analyzeContentWithAI w (own_prop b ''content'')) = Inr scores
             \<and> fst (scores_or_fallback w (own_prop b ''content'')) = scores
             \<and> (is_string (own_prop b ''content'') \<and> own_prop b ''content'' \<noteq> JStr []
                \<longrightarrow> test_moderate w b =
                      ((200, FlagList (formatResponse scores)),
                       [ClassifierCall (own_prop b ''content'')]))))
   \<and> (axios_post w (own_prop b ''content'') = HttpOk d \<and> ai_content d = Inr raw
        \<and> JSON_parse w raw = Some v \<and> holds_no_score v
      \<longrightarrow> \<not> classifier_fails w (own_prop b ''content'')
          \<and> fst (scores_or_fallback w (own_prop b ''content'')) = zero_scores
          \<and> (is_string (own_prop b ''content'') \<and> own_prop b ''content'' \<noteq> JStr []
             \<longrightarrow> test_moderate w b =
                   ((200, FlagList (map (\<lambda>f. \<lparr>flag_type = Some f, flag_value = Fin 0\<rparr>)
                                        FLAG_TYPES)),
                    [ClassifierCall (own_prop b ''content'')])))"
proof -
  let ?c = "own_prop b ''content''" and ?k = "own_prop b ''apikey''"
  let ?fb = "formatResponse (fst (generateRandomScores (random_source w) (random_pos w)))"
  have t: "is_string ?c \<and> ?c \<noteq> JStr [] \<and> classifier_fails w ?c
      \<longrightarrow> test_moderate w b = ((200, FlagList ?fb), [ClassifierCall ?c])
          \<and> \<not> list_ex is_insert (snd (test_moderate w b))"
    by (simp add: test_moderate_valid fallback_fails is_insert_def)
  have m: "is_string ?c \<and> ?c \<noteq> JStr [] \<and> truthy ?k \<and> fst (verifyApiKey w ?k)
        \<and> classifier_fails w ?c
      \<longrightarrow> (case fst (storeResultsInSupabase w ?k ?c ?fb) of
             Inl e \<Rightarrow> (\<exists>m. e = PostgrestError m)
                      \<and> fst (moderate w b)
                          = (500, ErrorBody ''Internal server error'' (Some (message e)))
           | Inr d \<Rightarrow> fst (moderate w b) = (200, FlagList ?fb))"
  proof (intro impI, elim conjE)
    assume a: "is_string ?c" "?c \<noteq> JStr []" "truthy ?k" "fst (verifyApiKey w ?k)"
      and f: "classifier_fails w ?c"
    show "case fst (storeResultsInSupabase w ?k ?c ?fb) of
             Inl e \<Rightarrow> (\<exists>m. e = PostgrestError m)
                      \<and> fst (moderate w b)
                          = (500, ErrorBody ''Internal server error'' (Some (message e)))
           | Inr d \<Rightarrow> fst (moderate w b) = (200, FlagList ?fb)"
    proof (cases "fst (storeResultsInSupabase w ?k ?c ?fb)")
      case (Inl e)
      then show ?thesis
        using store_error[OF Inl] a f
        by (simp add: moderate_accepted Let_def fallback_fails)
    next
      case (Inr d)
      then show ?thesis
        using a f by (simp add: moderate_accepted Let_def fallback_fails)
    qed
  qed
  have v: "valid_source (random_source w) \<longrightarrow> valid_flag_list ?fb"
    by (simp add: formatResponse_valid fallback_score_mapping)
  have n: "\<not> classifier_fails w ?c
      \<longrightarrow> (\<exists>scores. fst (analyzeContentWithAI w ?c) = Inr scores
             \<and> fst (scores_or_fallback w ?c) = scores
             \<and> (is_string ?c \<and> ?c \<noteq> JStr []
                \<longrightarrow> test_moderate w b =
                      ((200, FlagList (formatResponse scores)), [ClassifierCall ?c])))"
  proof
    assume "\<not> classifier_fails w ?c"
    then obtain scores where s: "fst (analyzeContentWithAI w ?c) = Inr scores"
      by (cases "fst (analyzeContentWithAI w ?c)") (simp_all add: classifier_fails_def)
    then have "fst (scores_or_fallback w ?c) = scores" by (rule fallback_ok)
    with s show "\<exists>scores. fst (analyzeContentWithAI w ?c) = Inr scores
             \<and> fst (scores_or_fallback w ?c) = scores
             \<and> (is_string ?c \<and> ?c \<noteq> JStr []
                \<longrightarrow> test_moderate w b =
                      ((200, FlagList (formatResponse scores)), [ClassifierCall ?c]))"
      by (simp add: test_moderate_valid)
  qed
  have z: "axios_post w ?c = HttpOk d \<and> ai_content d = Inr raw
        \<and> JSON_parse w raw = Some v \<and> holds_no_score v
      \<longrightarrow> \<not> classifier_fails w ?c
          \<and> fst (scores_or_fallback w ?c) = zero_scores
          \<and> (is_string ?c \<and> ?c \<noteq> JStr []
             \<longrightarrow> test_moderate w b =
                   ((200, FlagList (map (\<lambda>f. \<lparr>flag_type = Some f, flag_value = Fin 0\<rparr>)
                                        FLAG_TYPES)),
                    [ClassifierCall ?c]))"
  proof (intro impI, elim conjE)
    assume a: "axios_post w ?c = HttpOk d" "ai_content d = Inr raw"
      "JSON_parse w raw = Some v" "holds_no_score v"
    have s: "fst (analyzeContentWithAI w ?c) = Inr zero_scores"
      using a by (rule no_score_answer)
    then have f: "fst (scores_or_fallback w ?c) = zero_scores" by (rule fallback_ok)
    from s have nf: "\<not> classifier_fails w ?c" by (simp add: classifier_fails_def)
    from nf f show "\<not> classifier_fails w ?c
          \<and> fst (scores_or_fallback w ?c) = zero_scores
          \<and> (is_string ?c \<and> ?c \<noteq> JStr []
             \<longrightarrow> test_moderate w b =
                   ((200, FlagList (map (\<lambda>f. \<lparr>flag_type = Some f, flag_value = Fin 0\<rparr>)
                                        FLAG_TYPES)),
                    [ClassifierCall ?c]))"
      by (simp add: test_moderate_valid formatResponse_zero_scores)
  qed
  from classifier_fails_iff[of w ?c] t m v n z show ?thesis by (intro conjI)
qed

text \<open>
  Both endpoints in a world whose classifier is unreachable: valid content, and for
  the authenticated endpoint the key of the store. And the open endpoint in a world
  whose classifier answers with the payload \<^verbatim>\<open>5\<close>: the call does not fail, and the
  answer is 0 for every flag type.
\<close>

theorem classifier_failure_recovered_witness:
  "classifier_fails offline_world (JStr (utf16 ''hello''))
   \<and> valid_source (random_source offline_world)
   \<and> test_moderate offline_world [(utf16 ''content'', JStr (utf16 ''hello''))] =
       ((200, FlagList (formatResponse
                (fst (generateRandomScores (random_source offline_world) 0)))),
        [ClassifierCall (JStr (utf16 ''hello''))])
   \<and> valid_flag_list
        (formatResponse (fst (generateRandomScores (random_source offline_world) 0)))
   \<and> fst (moderate offline_world [(utf16 ''content'', JStr (utf16 ''hello'')), (utf16 ''apikey'', JStr (utf16 ''secret''))])
       = (200, FlagList (formatResponse
                (fst (generateRandomScores (random_source offline_world) 0))))
   \<and> JSON_parse junk_world (JStr (utf16 ''5'')) = Some (JNum (Fin 5))
   \<and> holds_no_score (JNum (Fin 5))
   \<and> \<not> classifier_fails junk_world (JStr (utf16 ''hello''))
   \<and> fst (scores_or_fallback junk_world (JStr (utf16 ''hello''))) = zero_scores
   \<and> test_moderate junk_world [(utf16 ''content'', JStr (utf16 ''hello''))] =
       ((200, FlagList (map (\<lambda>f. \<lparr>flag_type = Some f, flag_value = Fin 0\<rparr>) FLAG_TYPES)),
        [ClassifierCall (JStr (utf16 ''hello''))])
   \<and> (\<exists>scores. fst (analyzeContentWithAI junk_world (JStr (utf16 ''hello''))) = Inr scores
         \<and> test_moderate junk_world [(utf16 ''content'', JStr (utf16 ''hello''))] =
             ((200, FlagList (formatResponse scores)),
              [ClassifierCall (JStr (utf16 ''hello''))]))"
proof -
  let ?b1 = "[(utf16 ''content'', JStr (utf16 ''hello''))]"
  let ?b2 = "[(utf16 ''content'', JStr (utf16 ''hello'')), (utf16 ''apikey'', JStr (utf16 ''secret''))]"
  let ?fb = "formatResponse (fst (generateRandomScores (random_source offline_world) 0))"
  let ?d = "JObj [(utf16 ''choices'',
                    JArr [JObj [(utf16 ''message'',
                      JObj [(utf16 ''content'', JStr (utf16 ''5''))])]])]"
  have p: "random_pos offline_world = 0" by (simp add: offline_world_def)
  have c1: "own_prop ?b1 ''content'' = JStr (utf16 ''hello'')" by (simp add: own_prop_def)
  have c2: "own_prop ?b2 ''content'' = JStr (utf16 ''hello'')"
    "own_prop ?b2 ''apikey'' = JStr (utf16 ''secret'')" by (simp_all add: own_prop_def)
  have s: "is_string (JStr (utf16 ''hello''))" "JStr (utf16 ''hello'') \<noteq> JStr []" "truthy (JStr (utf16 ''secret''))"
    by (simp_all add: is_string_def truthy_def)
  have k: "fst (verifyApiKey offline_world (JStr (utf16 ''secret'')))"
    by (simp add: verifyApiKey_def offline_world_def truthy_def)
  have ins: "fst (storeResultsInSupabase offline_world (JStr (utf16 ''secret'')) (JStr (utf16 ''hello'')) ?fb)
               = Inr JNull"
    by (simp add: storeResultsInSupabase_def Let_def offline_world_def)
  have t: "test_moderate offline_world ?b1 = ((200, FlagList ?fb), [ClassifierCall (JStr (utf16 ''hello''))])"
    using classifier_failure_recovered[of offline_world ?b1] offline_fails s
    by (simp add: c1 p)
  have v: "valid_flag_list ?fb"
    using classifier_failure_recovered[of offline_world ?b1] offline_source
    by (simp add: p)
  have m: "fst (moderate offline_world ?b2) = (200, FlagList ?fb)"
    using classifier_failure_recovered[of offline_world ?b2] offline_fails s k ins
    by (simp add: c2 p)
  have ja: "axios_post junk_world (JStr (utf16 ''hello'')) = HttpOk ?d"
    by (simp add: junk_world_def)
  have jc: "ai_content ?d = Inr (JStr (utf16 ''5''))"
    by (simp add: ai_content_def get_prop_def own_prop_def get_index0_def)
  have jp: "JSON_parse junk_world (JStr (utf16 ''5'')) = Some (JNum (Fin 5))"
    by (simp add: junk_world_def)
  have jh: "holds_no_score (JNum (Fin 5))"
    by (simp add: holds_no_score_def get_prop_def list_all_iff)
  note j = classifier_failure_recovered[where w = junk_world and b = ?b1 and d = ?d
             and raw = "JStr (utf16 ''5'')" and v = "JNum (Fin 5)", unfolded c1]
  note j6 = j[THEN conjunct2, THEN conjunct2, THEN conjunct2, THEN conjunct2, THEN conjunct2]
  note j5 = j[THEN conjunct2, THEN conjunct2, THEN conjunct2, THEN conjunct2, THEN conjunct1]
  have z: "\<not> classifier_fails junk_world (JStr (utf16 ''hello''))
          \<and> fst (scores_or_fallback junk_world (JStr (utf16 ''hello''))) = zero_scores
          \<and> (is_string (JStr (utf16 ''hello'')) \<and> JStr (utf16 ''hello'') \<noteq> JStr []
             \<longrightarrow> test_moderate junk_world ?b1 =
                   ((200, FlagList (map (\<lambda>f. \<lparr>flag_type = Some f, flag_value = Fin 0\<rparr>)
                                        FLAG_TYPES)),
                    [ClassifierCall (JStr (utf16 ''hello''))]))"
    by (rule mp[OF j6]) (intro conjI ja jc jp jh)
  then have nf: "\<not> classifier_fails junk_world (JStr (utf16 ''hello''))"
    and zs: "fst (scores_or_fallback junk_world (JStr (utf16 ''hello''))) = zero_scores"
    and zt: "test_moderate junk_world ?b1 =
                   ((200, FlagList (map (\<lambda>f. \<lparr>flag_type = Some f, flag_value = Fin 0\<rparr>)
                                        FLAG_TYPES)),
                    [ClassifierCall (JStr (utf16 ''hello''))])"
    using s(1,2) by blast+
  from mp[OF j5 nf] obtain scores where
    sc: "fst (analyzeContentWithAI junk_world (JStr (utf16 ''hello''))) = Inr scores"
    and st: "is_string (JStr (utf16 ''hello'')) \<and> JStr (utf16 ''hello'') \<noteq> JStr []
                \<longrightarrow> test_moderate junk_world ?b1 =
                      ((200, FlagList (formatResponse scores)),
                       [ClassifierCall (JStr (utf16 ''hello''))])"
    by blast
  from sc st s(1,2) have e: "\<exists>scores. fst (analyzeContentWithAI junk_world (JStr (utf16 ''hello''))) = Inr scores
         \<and> test_moderate junk_world ?b1 =
             ((200, FlagList (formatResponse scores)),
              [ClassifierCall (JStr (utf16 ''hello''))])"
    by blast
  from offline_fails offline_source t v m jp jh nf zs zt e show ?thesis by (intro conjI)
qed

text \<open>
  The claim as the specification words it counts a malformed payload among the failures
  that the fallback recovers. In a world whose classifier answers with the payload
  \<^verbatim>\<open>5\<close> the call does not fail: both endpoints answer 200 with 0 for every flag
  type, which is not the list of the fallback scores of that world (0.25 and 0.75 in
  turn); the fallback generator is not consulted.
\<close>

theorem classifier_failure_recovered_counterexample:
  "\<not> classifier_fails junk_world (JStr (utf16 ''hello''))
   \<and> fst (scores_or_fallback junk_world (JStr (utf16 ''hello''))) = zero_scores
   \<and> test_moderate junk_world [(utf16 ''content'', JStr (utf16 ''hello''))] =
       ((200, FlagList
          [\<lparr>flag_type = Some ''toxicity'', flag_value = Fin 0\<rparr>,
           \<lparr>flag_type = Some ''harassment'', flag_value = Fin 0\<rparr>,
           \<lparr>flag_type = Some ''hate-speech'', flag_value = Fin 0\<rparr>,
           \<lparr>flag_type = Some ''sexual'', flag_value = Fin 0\<rparr>,
           \<lparr>flag_type = Some ''violence'', flag_value = Fin 0\<rparr>,
           \<lparr>flag_type = Some ''spam'', flag_value = Fin 0\<rparr>]),
        [ClassifierCall (JStr (utf16 ''hello''))])
   \<and> fst (moderate junk_world [(utf16 ''content'', JStr (utf16 ''hello'')), (utf16 ''apikey'', JStr (utf16 ''secret''))])
       = (200, FlagList
          [\<lparr>flag_type = Some ''toxicity'', flag_value = Fin 0\<rparr>,
           \<lparr>flag_type = Some ''harassment'', flag_value = Fin 0\<rparr>,
           \<lparr>flag_type = Some ''hate-speech'', flag_value = Fin 0\<rparr>,
           \<lparr>flag_type = Some ''sexual'', flag_value = Fin 0\<rparr>,
           \<lparr>flag_type = Some ''violence'', flag_value = Fin 0\<rparr>,
           \<lparr>flag_type = Some ''spam'', flag_value = Fin 0\<rparr>])
   \<and> formatResponse (fst (generateRandomScores (random_source junk_world)
                              (random_pos junk_world))) =
       [\<lparr>flag_type = Some ''toxicity'', flag_value = Fin (1 / 4)\<rparr>,
        \<lparr>flag_type = Some ''harassment'', flag_value = Fin (3 / 4)\<rparr>,
        \<lparr>flag_type = Some ''hate-speech'', flag_value = Fin (1 / 4)\<rparr>,
        \<lparr>flag_type = Some ''sexual'', flag_value = Fin (3 / 4)\<rparr>,
        \<lparr>flag_type = Some ''violence'', flag_value = Fin (1 / 4)\<rparr>,
        \<lparr>flag_type = Some ''spam'', flag_value = Fin (3 / 4)\<rparr>]
   \<and> fst (test_moderate junk_world [(utf16 ''content'', JStr (utf16 ''hello''))]) \<noteq>
       (200, FlagList (formatResponse
               (fst (generateRandomScores (random_source junk_world)
                       (random_pos junk_world)))))"
proof -
  let ?b1 = "[(utf16 ''content'', JStr (utf16 ''hello''))]"
  let ?b2 = "[(utf16 ''content'', JStr (utf16 ''hello'')), (utf16 ''apikey'', JStr (utf16 ''secret''))]"
  let ?zeros = "[\<lparr>flag_type = Some ''toxicity'', flag_value = Fin 0\<rparr>,
           \<lparr>flag_type = Some ''harassment'', flag_value = Fin 0\<rparr>,
           \<lparr>flag_type = Some ''hate-speech'', flag_value = Fin 0\<rparr>,
           \<lparr>flag_type = Some ''sexual'', flag_value = Fin 0\<rparr>,
           \<lparr>flag_type = Some ''violence'', flag_value = Fin 0\<rparr>,
           \<lparr>flag_type = Some ''spam'', flag_value = Fin 0\<rparr>]"
  have c1: "own_prop ?b1 ''content'' = JStr (utf16 ''hello'')" by (simp add: own_prop_def)
  have c2: "own_prop ?b2 ''content'' = JStr (utf16 ''hello'')"
    "own_prop ?b2 ''apikey'' = JStr (utf16 ''secret'')" by (simp_all add: own_prop_def)
  have s1: "is_string (own_prop ?b1 ''content'')" "own_prop ?b1 ''content'' \<noteq> JStr []"
    by (simp_all add: c1 is_string_def)
  have s2: "is_string (own_prop ?b2 ''content'')" "own_prop ?b2 ''content'' \<noteq> JStr []"
    "truthy (own_prop ?b2 ''apikey'')"
    by (simp_all add: c2 is_string_def truthy_def)
  have k: "fst (verifyApiKey junk_world (own_prop ?b2 ''apikey''))"
    by (simp add: c2 verifyApiKey_def junk_world_def offline_world_def truthy_def)
  have nf: "\<not> classifier_fails junk_world (JStr (utf16 ''hello''))"
    by (simp add: classifier_fails_def junk_answer)
  have zs: "fst (scores_or_fallback junk_world (JStr (utf16 ''hello''))) = zero_scores"
    by (rule fallback_ok) (rule junk_answer)
  have fz: "formatResponse zero_scores = ?zeros"
    by (simp add: formatResponse_zero_scores FLAG_TYPES_def)
  have t: "test_moderate junk_world ?b1 =
             ((200, FlagList ?zeros), [ClassifierCall (JStr (utf16 ''hello''))])"
    unfolding test_moderate_valid[OF s1] by (simp add: c1 zs fz)
  have ins: "fst (storeResultsInSupabase junk_world (JStr (utf16 ''secret''))
                    (JStr (utf16 ''hello'')) ?zeros) = Inr JNull"
    by (simp add: storeResultsInSupabase_def Let_def junk_world_def offline_world_def)
  have m: "fst (moderate junk_world ?b2) = (200, FlagList ?zeros)"
    unfolding moderate_accepted[OF s2 k] by (simp add: Let_def c2 zs fz ins)
  have fb: "formatResponse (fst (generateRandomScores (random_source junk_world)
                              (random_pos junk_world))) =
       [\<lparr>flag_type = Some ''toxicity'', flag_value = Fin (1 / 4)\<rparr>,
        \<lparr>flag_type = Some ''harassment'', flag_value = Fin (3 / 4)\<rparr>,
        \<lparr>flag_type = Some ''hate-speech'', flag_value = Fin (1 / 4)\<rparr>,
        \<lparr>flag_type = Some ''sexual'', flag_value = Fin (3 / 4)\<rparr>,
        \<lparr>flag_type = Some ''violence'', flag_value = Fin (1 / 4)\<rparr>,
        \<lparr>flag_type = Some ''spam'', flag_value = Fin (3 / 4)\<rparr>]"
    unfolding junk_fallback by (rule offline_fallback)
  have ne: "fst (test_moderate junk_world ?b1) \<noteq>
       (200, FlagList (formatResponse
               (fst (generateRandomScores (random_source junk_world)
                       (random_pos junk_world)))))"
    unfolding fb t by simp
  from nf zs t m fb ne show ?thesis by (intro conjI)
qed

subsection \<open>C10: the row that is stored\<close>

lemma stored_row_fields:
  "flags_type (flags (stored_row k c results)) = flag_type (maxFlag results)"
  "score (flags (stored_row k c results)) = flag_value (maxFlag results)"
  "user_id (stored_row k c results) = JNull"
  "content_type (stored_row k c results) = ''text''"
  "api_key (stored_row k c results) = k"
  "content (stored_row k c results) = c"
  by (simp_all add: stored_row_def Let_def)

lemma unit_interval_above_sentinel: "unit_interval a \<Longrightarrow> js_gt a (Fin (- 1))"
  by (cases a) (simp_all add: unit_interval_def js_gt_def)

lemma unit_interval_nonneg: "unit_interval a \<Longrightarrow> js_ge a (Fin 0)"
  by (cases a) (simp_all add: unit_interval_def js_ge_def)

lemma dominant_of_valid:
  assumes "valid_flag_list results"
  shows "\<exists>i<length FLAG_TYPES. maxFlag results = results ! i
           \<and> is_first_max results i
           \<and> flag_type (results ! i) = Some (FLAG_TYPES ! i)
           \<and> unit_interval (flag_value (results ! i))
           \<and> (\<forall>r\<in>set results. \<not> js_gt (flag_value r) (flag_value (results ! i)))"
proof -
  have types: "map flag_type results = map Some FLAG_TYPES"
    and vals: "\<forall>r\<in>set results. unit_interval (flag_value r)"
    using assms by (simp_all add: valid_flag_list_def list_all_iff)
  have len: "length results = length FLAG_TYPES"
    using types by (metis length_map)
  have "results \<noteq> []" using len by (auto simp: FLAG_TYPES_def)
  then obtain r0 where r0: "r0 \<in> set results" by (cases results) auto
  then have "js_gt (flag_value r0) (Fin (- 1))"
    using vals unit_interval_above_sentinel by blast
  with r0 maxFlag_scan[of results]
  obtain i where i: "is_first_max results i" "maxFlag results = results ! i" by blast
  then have il: "i < length results" by (simp add: is_first_max_def)
  have "flag_type (results ! i) = map flag_type results ! i" using il by simp
  also have "\<dots> = Some (FLAG_TYPES ! i)" using il len by (simp add: types)
  finally have ty: "flag_type (results ! i) = Some (FLAG_TYPES ! i)" .
  have ui: "unit_interval (flag_value (results ! i))" using vals il by simp
  have top: "\<forall>r\<in>set results. \<not> js_gt (flag_value r) (flag_value (results ! i))"
    using i(1) by (auto simp: is_first_max_def in_set_conv_nth)
  from il len i ty ui top show ?thesis by auto
qed

lemma stored_row_of_valid:
  assumes "valid_flag_list results"
  shows "(\<exists>f\<in>set FLAG_TYPES. flags_type (flags (stored_row k c results)) = Some f)
         \<and> (\<exists>i. is_first_max results i
                \<and> flags_type (flags (stored_row k c results)) = flag_type (results ! i)
                \<and> score (flags (stored_row k c results)) = flag_value (results ! i))
         \<and> score (flags (stored_row k c results)) \<in> flag_value ` set results
         \<and> (\<forall>r\<in>set results. \<not> js_gt (flag_value r) (score (flags (stored_row k c results))))
         \<and> js_ge (score (flags (stored_row k c results))) (Fin 0)
         \<and> user_id (stored_row k c results) = JNull
         \<and> content_type (stored_row k c results) = ''text''"
proof -
  from dominant_of_valid[OF assms] obtain i where
    i: "i < length FLAG_TYPES" "maxFlag results = results ! i"
       "is_first_max results i"
       "flag_type (results ! i) = Some (FLAG_TYPES ! i)"
       "unit_interval (flag_value (results ! i))"
       "\<forall>r\<in>set results. \<not> js_gt (flag_value r) (flag_value (results ! i))"
    by blast
  have len: "length results = length FLAG_TYPES"
    using assms by (metis valid_flag_list_def length_map)
  have a: "\<exists>f\<in>set FLAG_TYPES. flags_type (flags (stored_row k c results)) = Some f"
    using i(1,2,4) by (auto simp: stored_row_fields)
  have f: "\<exists>i. is_first_max results i
                \<and> flags_type (flags (stored_row k c results)) = flag_type (results ! i)
                \<and> score (flags (stored_row k c results)) = flag_value (results ! i)"
    using i(2,3) by (auto simp: stored_row_fields)
  have b: "score (flags (stored_row k c results)) \<in> flag_value ` set results"
    using i(1,2) len by (simp add: stored_row_fields)
  have c: "\<forall>r\<in>set results. \<not> js_gt (flag_value r) (score (flags (stored_row k c results)))"
    using i(2,6) by (simp add: stored_row_fields)
  have d: "js_ge (score (flags (stored_row k c results))) (Fin 0)"
    using i(2,5) by (simp add: stored_row_fields unit_interval_nonneg)
  from a f b c d show ?thesis by (simp add: stored_row_fields)
qed

lemma moderate_insert:
  assumes "InsertRow row \<in> set (snd (moderate w b))"
  shows "row = stored_row (own_prop b ''apikey'') (own_prop b ''content'')
                 (formatResponse (fst (scores_or_fallback w (own_prop b ''content''))))
         \<and> (fst (moderate w b) =
               (200, FlagList (formatResponse
                        (fst (scores_or_fallback w (own_prop b ''content'')))))
            \<or> fst (fst (moderate w b)) = 500)"
proof -
  let ?c = "own_prop b ''content''" and ?k = "own_prop b ''apikey''"
  consider "\<not> is_string ?c \<or> ?c = JStr []"
    | "is_string ?c" "?c \<noteq> JStr []" "\<not> truthy ?k"
    | "is_string ?c" "?c \<noteq> JStr []" "truthy ?k" "\<not> fst (verifyApiKey w ?k)"
    | "is_string ?c" "?c \<noteq> JStr []" "truthy ?k" "fst (verifyApiKey w ?k)"
    by blast
  then show ?thesis
  proof cases
    case 1
    then show ?thesis using assms by (simp add: moderate_400)
  next
    case 2
    then show ?thesis using assms by (simp add: moderate_401)
  next
    case 3
    then show ?thesis using assms by (simp add: moderate_403)
  next
    case 4
    then show ?thesis using assms
      by (simp add: moderate_accepted Let_def split: sum.splits)
  qed
qed

text \<open>
  C10. Every row that \<^verbatim>\<open>POST /moderate\<close> hands to the insert is the row of the list
  of flag records that the request formatted, the list it answers with when the insert
  succeeds, and that list is valid. The dominant flag type of the row is one of the six
  recognized flag types, never the \<^verbatim>\<open>null\<close> of the sentinel; type and score are those
  of the first record of the greatest value, so the score is a value of the formatted
  list that no value of the list exceeds, and it is at least 0; the row has
  \<^verbatim>\<open>user_id\<close> \<^verbatim>\<open>null\<close> and \<^verbatim>\<open>content_type\<close> \<^verbatim>\<open>text\<close>. The random source yields
  doubles in \<open>[0, 1)\<close>.
\<close>

theorem stored_result_invariant:
  assumes "valid_source (random_source w)"
    and "InsertRow row \<in> set (snd (moderate w b))"
  shows "valid_flag_list (formatResponse (fst (scores_or_fallback w (own_prop b ''content''))))
         \<and> row = stored_row (own_prop b ''apikey'') (own_prop b ''content'')
                   (formatResponse (fst (scores_or_fallback w (own_prop b ''content''))))
         \<and> (fst (moderate w b) =
               (200, FlagList (formatResponse
                        (fst (scores_or_fallback w (own_prop b ''content'')))))
            \<or> fst (fst (moderate w b)) = 500)
         \<and> (\<exists>f\<in>set FLAG_TYPES. flags_type (flags row) = Some f)
         \<and> (\<exists>i. is_first_max
                   (formatResponse (fst (scores_or_fallback w (own_prop b ''content'')))) i
                \<and> flags_type (flags row) =
                    flag_type (formatResponse
                                 (fst (scores_or_fallback w (own_prop b ''content''))) ! i)
                \<and> score (flags row) =
                    flag_value (formatResponse
                                  (fst (scores_or_fallback w (own_prop b ''content''))) ! i))
         \<and> score (flags row)
             \<in> flag_value ` set (formatResponse
                                   (fst (scores_or_fallback w (own_prop b ''content''))))
         \<and> (\<forall>r\<in>set (formatResponse (fst (scores_or_fallback w (own_prop b ''content'')))).
               \<not> js_gt (flag_value r) (score (flags row)))
         \<and> js_ge (score (flags row)) (Fin 0)
         \<and> user_id row = JNull
         \<and> content_type row = ''text''"
proof -
  let ?results = "formatResponse (fst (scores_or_fallback w (own_prop b ''content'')))"
  let ?row = "stored_row (own_prop b ''apikey'') (own_prop b ''content'') ?results"
  have v: "valid_flag_list ?results"
    using assms(1) by (intro formatResponse_valid fallback_mapping)
  have r: "row = ?row" and resp: "fst (moderate w b) = (200, FlagList ?results)
            \<or> fst (fst (moderate w b)) = 500"
    using moderate_insert[OF assms(2)] by simp_all
  note p = stored_row_of_valid[OF v, of "own_prop b ''apikey''" "own_prop b ''content''"]
  show ?thesis unfolding r using v resp p by (intro conjI) simp_all
qed

lemma offline_dominant:
  "maxFlag (formatResponse (fst (generateRandomScores (random_source offline_world) 0)))
     = \<lparr>flag_type = Some ''harassment'', flag_value = Fin (3 / 4)\<rparr>"
  unfolding offline_fallback by (simp add: maxFlag_def js_gt_def)

lemma offline_insert:
  "InsertRow (stored_row (JStr (utf16 ''secret'')) (JStr (utf16 ''hello''))
       (formatResponse (fst (generateRandomScores (random_source offline_world) 0))))
     \<in> set (snd (moderate offline_world
                   [(utf16 ''content'', JStr (utf16 ''hello'')), (utf16 ''apikey'', JStr (utf16 ''secret''))]))"
proof -
  let ?b = "[(utf16 ''content'', JStr (utf16 ''hello'')), (utf16 ''apikey'', JStr (utf16 ''secret''))]"
  have c: "own_prop ?b ''content'' = JStr (utf16 ''hello'')"
    "own_prop ?b ''apikey'' = JStr (utf16 ''secret'')"
    by (simp_all add: own_prop_def)
  have s: "is_string (own_prop ?b ''content'')" "own_prop ?b ''content'' \<noteq> JStr []"
    "truthy (own_prop ?b ''apikey'')"
    by (simp_all add: c is_string_def truthy_def)
  have k: "fst (verifyApiKey offline_world (own_prop ?b ''apikey''))"
    by (simp add: c verifyApiKey_def offline_world_def truthy_def)
  have p: "random_pos offline_world = 0" by (simp add: offline_world_def)
  show ?thesis
    unfolding moderate_accepted[OF s k]
    by (simp add: Let_def c fallback_fails offline_fails p)
qed

text \<open>
  The row of a request with the key of the store in a world whose classifier is
  unreachable: the fallback scores alternate between 0.25 and 0.75, and harassment is
  the first flag type of the greatest value.
\<close>

theorem stored_result_invariant_witness:
  "valid_source (random_source offline_world)
   \<and> InsertRow (stored_row (JStr (utf16 ''secret'')) (JStr (utf16 ''hello''))
         (formatResponse (fst (generateRandomScores (random_source offline_world) 0))))
       \<in> set (snd (moderate offline_world
                     [(utf16 ''content'', JStr (utf16 ''hello'')), (utf16 ''apikey'', JStr (utf16 ''secret''))]))
   \<and> flags_type (flags (stored_row (JStr (utf16 ''secret'')) (JStr (utf16 ''hello''))
         (formatResponse (fst (generateRandomScores (random_source offline_world) 0)))))
       = Some ''harassment''
   \<and> score (flags (stored_row (JStr (utf16 ''secret'')) (JStr (utf16 ''hello''))
         (formatResponse (fst (generateRandomScores (random_source offline_world) 0)))))
       = Fin (3 / 4)
   \<and> js_ge (score (flags (stored_row (JStr (utf16 ''secret'')) (JStr (utf16 ''hello''))
         (formatResponse (fst (generateRandomScores (random_source offline_world) 0))))))
        (Fin 0)
   \<and> user_id (stored_row (JStr (utf16 ''secret'')) (JStr (utf16 ''hello''))
         (formatResponse (fst (generateRandomScores (random_source offline_world) 0))))
       = JNull
   \<and> content_type (stored_row (JStr (utf16 ''secret'')) (JStr (utf16 ''hello''))
         (formatResponse (fst (generateRandomScores (random_source offline_world) 0))))
       = ''text''"
proof -
  let ?row = "stored_row (JStr (utf16 ''secret'')) (JStr (utf16 ''hello''))
         (formatResponse (fst (generateRandomScores (random_source offline_world) 0)))"
  from stored_result_invariant[OF offline_source offline_insert]
  have g: "js_ge (score (flags ?row)) (Fin 0)" "user_id ?row = JNull"
    "content_type ?row = ''text''"
    by blast+
  have t: "flags_type (flags ?row) = Some ''harassment''"
    by (simp add: stored_row_fields offline_dominant)
  have v: "score (flags ?row) = Fin (3 / 4)"
    by (simp add: stored_row_fields offline_dominant)
  from offline_source offline_insert t v g show ?thesis by (intro conjI)
qed

end
